theory Spec2Isabelle
  imports Complex_Main "HOL-Library.Log_Nat"
begin

section \<open>Strings of the recipe application\<close>

text \<open>
  The application is TypeScript. A string is modelled as a list of code units, each below
  256 (the Latin-1 range), so \<open>length\<close> is the \<^verbatim>\<open>.length\<close> of the source and
  \<open>!\<close> is indexing. Numbers that the source uses as counts, indices and lengths are
  \<open>nat\<close>; ratings are \<open>real\<close> (exact arithmetic, standing for the doubles of the
  source). The id of a recipe is a double in the source: the model holds the ids that are
  whole numbers, as \<open>int\<close>, and rounds the one sum that the source computes on them to
  the nearest double.

  The providers are React components. An operation reads the collections that the render
  which created it has captured, and writes with a functional update, which runs on the
  collections as they are at that moment. Where an operation reads a collection, the
  model takes both: the collection as rendered and the live state. The two are the same
  for the first call made from a render.
\<close>

definition is_space :: "char \<Rightarrow> bool" where
  \<comment> \<open>the class \<^verbatim>\<open>\s\<close> of a regular expression, and what \<^verbatim>\<open>trim\<close> strips:
      tab, line feed, vertical tab, form feed, carriage return, space, no-break space\<close>
  "is_space c = (of_char c \<in> {9, 10, 11, 12, 13, 32, 160 :: nat})"

definition lower_char :: "char \<Rightarrow> char" where
  \<comment> \<open>A-Z, and the capital letters of Latin-1 (all of 192..222 but the sign at 215)\<close>
  "lower_char c =
     (let n = (of_char c :: nat) in
      if (65 \<le> n \<and> n \<le> 90) \<or> (192 \<le> n \<and> n \<le> 222 \<and> n \<noteq> 215)
      then char_of (n + 32) else c)"

definition toLowerCase :: "string \<Rightarrow> string" where
  "toLowerCase s = map lower_char s"

definition trim :: "string \<Rightarrow> string" where
  "trim s = rev (dropWhile is_space (rev (dropWhile is_space s)))"

fun startsWith :: "string \<Rightarrow> string \<Rightarrow> bool" where
  "startsWith s [] = True"
| "startsWith [] (c # t) = False"
| "startsWith (d # s) (c # t) = (d = c \<and> startsWith s t)"

fun includes_str :: "string \<Rightarrow> string \<Rightarrow> bool" where
  \<comment> \<open>\<^verbatim>\<open>s.includes(t)\<close>: \<open>t\<close> occurs in \<open>s\<close> as a contiguous substring\<close>
  "includes_str [] t = (t = [])"
| "includes_str (d # s) t = (startsWith (d # s) t \<or> includes_str s t)"

function split_ws :: "string \<Rightarrow> string list" where
  \<comment> \<open>\<^verbatim>\<open>s.split(/\s+/)\<close>: the pieces between maximal runs of white space; a run at
      either end leaves an empty piece there, and the empty string gives one empty piece\<close>
  "split_ws [] = [[]]"
| "split_ws (c # s) =
     (if is_space c then [] # split_ws (dropWhile is_space s)
      else (case split_ws s of [] \<Rightarrow> [[c]] | w # ws \<Rightarrow> (c # w) # ws))"
  by pat_completeness auto
termination
  by (relation "measure length") (auto simp: length_dropWhile_le less_Suc_eq_le)

fun split_char :: "char \<Rightarrow> string \<Rightarrow> string list" where
  \<comment> \<open>\<^verbatim>\<open>s.split(sep)\<close> for a separator of one character\<close>
  "split_char sep [] = [[]]"
| "split_char sep (c # s) =
     (if c = sep then [] # split_char sep s
      else (case split_char sep s of [] \<Rightarrow> [[c]] | w # ws \<Rightarrow> (c # w) # ws))"

function digits :: "nat \<Rightarrow> string" where
  \<comment> \<open>the decimal digits of a natural number, as a template literal prints it\<close>
  "digits n = (if n < 10 then [char_of (48 + n)] else digits (n div 10) @ [char_of (48 + n mod 10)])"
  by pat_completeness auto
termination
  by (relation "measure id") auto

declare digits.simps [simp del]

definition number_string :: "int \<Rightarrow> string" where
  "number_string k = (if k < 0 then CHR ''-'' # digits (nat (- k)) else digits (nat k))"

section \<open>TextSimilarity: \<^verbatim>\<open>getLevenshteinDistance\<close> and \<^verbatim>\<open>isFuzzyMatch\<close>\<close>

text \<open>
  \<^verbatim>\<open>getLevenshteinDistance\<close> fills a matrix of \<open>b.length + 1\<close> rows with \<open>a.length + 1\<close>
  cells each: row 0, then column 0, then the rows 1, 2, ... from left to right. The source
  fills the fresh matrix with \<^verbatim>\<open>null\<close>; the model fills it with 0, which is the number
  \<^verbatim>\<open>null\<close> stands for in the arithmetic of the source.
\<close>

type_synonym matrix = "nat list list"

definition cell :: "matrix \<Rightarrow> nat \<Rightarrow> nat \<Rightarrow> nat" where
  "cell m j i = m ! j ! i"

definition set_cell :: "matrix \<Rightarrow> nat \<Rightarrow> nat \<Rightarrow> nat \<Rightarrow> matrix" where
  "set_cell m j i v = m[j := (m ! j)[i := v]]"

definition new_matrix :: "string \<Rightarrow> string \<Rightarrow> matrix" where
  "new_matrix a b = replicate (length b + 1) (replicate (length a + 1) 0)"

definition fill_cell :: "string \<Rightarrow> string \<Rightarrow> nat \<Rightarrow> nat \<Rightarrow> matrix \<Rightarrow> matrix" where
  "fill_cell a b j i m =
     (let indicator = (if a ! (i - 1) = b ! (j - 1) then 0 else 1) in
      set_cell m j i
        (min (min (cell m j (i - 1) + 1) (cell m (j - 1) i + 1))
             (cell m (j - 1) (i - 1) + indicator)))"

definition fill_row :: "string \<Rightarrow> string \<Rightarrow> nat \<Rightarrow> matrix \<Rightarrow> matrix" where
  "fill_row a b j m = fold (fill_cell a b j) [1..<Suc (length a)] m"

definition getLevenshteinDistance :: "string \<Rightarrow> string \<Rightarrow> nat" where
  "getLevenshteinDistance a b =
     (let m0 = new_matrix a b;
          m1 = fold (\<lambda>i m. set_cell m 0 i i) [0..<Suc (length a)] m0;
          m2 = fold (\<lambda>j m. set_cell m j 0 j) [0..<Suc (length b)] m1;
          m3 = fold (fill_row a b) [1..<Suc (length b)] m2
      in cell m3 (length b) (length a))"

text \<open>
  The edit distance as the specification describes it, written from its words and not
  from the source: the textbook recursion in which an insertion, a deletion and a
  substitution cost 1 each. The matrix of the source is compared with it below.
\<close>

fun spec_editDistance :: "'a list \<Rightarrow> 'a list \<Rightarrow> nat" where
  "spec_editDistance [] ys = length ys"
| "spec_editDistance xs [] = length xs"
| "spec_editDistance (x # xs) (y # ys) =
     min (min (spec_editDistance xs (y # ys) + 1) (spec_editDistance (x # xs) ys + 1))
         (spec_editDistance xs ys + (if x = y then 0 else 1))"

text \<open>
  \<^verbatim>\<open>isFuzzyMatch(source, target, tolerance = 0.2)\<close>. The largest distance accepted is
  computed once, before the loop over the words, from the length of the whole lower-cased
  target. The loop over the words of the target returns at the first word that some
  word of the source is close to.
\<close>

definition maxDistance :: "string \<Rightarrow> rat \<Rightarrow> nat" where
  "maxDistance targetLower tolerance =
     max (nat \<lfloor>of_nat (length targetLower) * tolerance\<rfloor>) 1"

definition word_close :: "nat \<Rightarrow> string \<Rightarrow> string \<Rightarrow> bool" where
  \<comment> \<open>the callback given to \<^verbatim>\<open>some\<close>\<close>
  "word_close maxd word sourceWord =
     (if length sourceWord < 3 then False
      else getLevenshteinDistance sourceWord word \<le> maxd)"

fun words_loop :: "string \<Rightarrow> nat \<Rightarrow> string list \<Rightarrow> bool" where
  "words_loop sourceLower maxd [] = False"
| "words_loop sourceLower maxd (word # ws) =
     (if length word < 3 then words_loop sourceLower maxd ws
      else if list_ex (word_close maxd word) (split_ws sourceLower) then True
      else words_loop sourceLower maxd ws)"

definition isFuzzyMatch :: "string \<Rightarrow> string \<Rightarrow> rat \<Rightarrow> bool" where
  "isFuzzyMatch source target tolerance =
     (if source = [] \<or> target = [] then False
      else
        let sourceLower = toLowerCase source;
            targetLower = toLowerCase target
        in if includes_str sourceLower targetLower \<or> includes_str targetLower sourceLower then True
           else words_loop sourceLower (maxDistance targetLower tolerance)
                  (split_ws targetLower))"

definition default_tolerance :: rat where
  \<comment> \<open>the default value 0.2 of the parameter; no call of the source gives another\<close>
  "default_tolerance = 2 / 10"

text \<open>
  The tolerance is a rational number in the model. The double nearest to 0.2 lies a
  little above 0.2, and a product with a length is never rounded below the whole number
  under it, so \<^verbatim>\<open>Math.floor(length * 0.2)\<close> is the integer quotient of the length by 5
  in the source as it is here.
\<close>

section \<open>RecipeContext: recipes, reviews, search\<close>

text \<open>
  The interfaces \<^verbatim>\<open>Recipe\<close> and \<^verbatim>\<open>Review\<close>. A field name that two interfaces share is
  written with the interface's name in front in the second one (\<open>review_RecipeId\<close>).
  \<^verbatim>\<open>DateSubmitted\<close> is optional in the source.
\<close>

record recipe =
  RecipeId :: int
  Name :: string
  AuthorId :: string
  AuthorName :: string
  CookTime :: string
  PrepTime :: string
  TotalTime :: string
  DatePublished :: string
  Description :: string
  Images :: "string list"
  RecipeCategory :: string
  Keywords :: "string list"
  RecipeIngredientQuantities :: "string list"
  RecipeIngredientParts :: "string list"
  AggregatedRating :: real
  ReviewCount :: int
  Calories :: real
  FatContent :: real
  SaturatedFatContent :: real
  CholesterolContent :: real
  SodiumContent :: real
  CarbohydrateContent :: real
  FiberContent :: real
  SugarContent :: real
  ProteinContent :: real
  RecipeServings :: int
  RecipeYield :: string
  RecipeInstructions :: "string list"

record reviewData =
  review_RecipeId :: int
  review_AuthorId :: int
  review_AuthorName :: string
  Rating :: real
  Review :: string

record review = reviewData +
  ReviewId :: nat
  DateSubmitted :: "string option"
  DateModified :: string

record recipe_state =
  recipes :: "recipe list"
  reviews :: "review list"

subsection \<open>\<^verbatim>\<open>searchRecipesWithFuzzy\<close>\<close>

definition exact_match :: "string \<Rightarrow> recipe \<Rightarrow> bool" where
  \<comment> \<open>the callback of the first pass\<close>
  "exact_match queryLower r =
     (let nameMatch = includes_str (toLowerCase (Name r)) queryLower;
          descriptionMatch = includes_str (toLowerCase (Description r)) queryLower;
          keywordMatch = list_ex (\<lambda>k. includes_str (toLowerCase k) queryLower) (Keywords r);
          ingredientMatch =
            list_ex (\<lambda>i. includes_str (toLowerCase i) queryLower) (RecipeIngredientParts r)
      in nameMatch \<or> descriptionMatch \<or> keywordMatch \<or> ingredientMatch)"

definition fuzzy_match :: "string \<Rightarrow> recipe \<Rightarrow> bool" where
  \<comment> \<open>the callback of the second pass\<close>
  "fuzzy_match queryLower r =
     (if isFuzzyMatch (toLowerCase (Name r)) queryLower default_tolerance then True
      else if Description r \<noteq> [] \<and>
              isFuzzyMatch (toLowerCase (Description r)) queryLower default_tolerance then True
      else if list_ex (\<lambda>ingredient. isFuzzyMatch (toLowerCase ingredient) queryLower default_tolerance)
                (RecipeIngredientParts r) then True
      else if list_ex (\<lambda>keyword. isFuzzyMatch (toLowerCase keyword) queryLower default_tolerance)
                (Keywords r) then True
      else False)"

definition searchRecipesWithFuzzy :: "string \<Rightarrow> recipe list \<Rightarrow> recipe list" where
  "searchRecipesWithFuzzy query recipesToSearch =
     (let queryLower = trim (toLowerCase query) in
      if queryLower = [] then take 20 recipesToSearch
      else
        let exactMatches = filter (exact_match queryLower) recipesToSearch in
        if length exactMatches > 0 then exactMatches
        else filter (fuzzy_match queryLower) recipesToSearch)"

subsection \<open>\<^verbatim>\<open>addRecipe\<close>\<close>

text \<open>
  The argument of \<^verbatim>\<open>addRecipe\<close>; its comma-separated key words (\<open>keywords_str\<close>),
  \<^verbatim>\<open>imageUrl\<close> and \<^verbatim>\<open>recipeYield\<close> are optional. The time stamp
  \<^verbatim>\<open>new Date().toISOString()\<close> is an argument of the model.
\<close>

record recipe_input =
  name :: string
  description :: string
  instructions :: string
  category :: string
  authorId :: string
  authorName :: string
  prepTime :: int
  cookTime :: int
  servings :: int
  keywords_str :: "string option"
  imageUrl :: "string option"
  recipeYield :: "string option"
  ingredientQuantities :: "string list"
  ingredientParts :: "string list"

definition maxId :: "recipe list \<Rightarrow> int" where
  \<comment> \<open>\<^verbatim>\<open>recipes.length > 0 ? Math.max(...recipes.map(r => r.RecipeId)) : 0\<close>\<close>
  "maxId rs = (case map RecipeId rs of [] \<Rightarrow> 0 | x # xs \<Rightarrow> fold max xs x)"

definition newRecipe :: "recipe_input \<Rightarrow> string \<Rightarrow> int \<Rightarrow> recipe" where
  "newRecipe d published newId =
     \<lparr> RecipeId = newId,
       Name = name d,
       AuthorId = authorId d,
       AuthorName = authorName d,
       CookTime = ''PT'' @ number_string (cookTime d) @ ''M'',
       PrepTime = ''PT'' @ number_string (prepTime d) @ ''M'',
       TotalTime = ''PT'' @ number_string (prepTime d + cookTime d) @ ''M'',
       DatePublished = published,
       Description = description d,
       Images = (case imageUrl d of None \<Rightarrow> [] | Some u \<Rightarrow> if u = [] then [] else [u]),
       RecipeCategory = category d,
       Keywords =
         (case keywords_str d of None \<Rightarrow> []
          | Some ks \<Rightarrow>
              if ks = [] then []
              else filter (\<lambda>k. k \<noteq> []) (map trim (split_char CHR '','' ks))),
       RecipeIngredientQuantities = ingredientQuantities d,
       RecipeIngredientParts = ingredientParts d,
       AggregatedRating = 0,
       ReviewCount = 0,
       Calories = 0,
       FatContent = 0,
       SaturatedFatContent = 0,
       CholesterolContent = 0,
       SodiumContent = 0,
       CarbohydrateContent = 0,
       FiberContent = 0,
       SugarContent = 0,
       ProteinContent = 0,
       RecipeServings = servings d,
       RecipeYield = (case recipeYield d of None \<Rightarrow> [] | Some y \<Rightarrow> y),
       RecipeInstructions =
         filter (\<lambda>l. length l > 0) (map trim (split_char (CHR 0x0A) (instructions d))) \<rparr>"

text \<open>
  \<^verbatim>\<open>maxId + 1\<close> is a sum of doubles. \<open>to_double\<close> is the double nearest to a whole
  number, with ties to the even significand: every whole number up to \<open>2 ^ 53\<close> in
  magnitude is a double, and beyond them the doubles are the multiples of the power of
  two \<open>q\<close> that leaves 53 bits.
\<close>

definition to_double :: "int \<Rightarrow> int" where
  "to_double n =
     (if \<bar>n\<bar> \<le> 2 ^ 53 then n
      else
        let a = nat \<bar>n\<bar>;
            q = 2 ^ (floorlog 2 a - 53);
            m = a div q;
            r = a mod q;
            m' = (if 2 * r < q then m else if q < 2 * r then m + 1
                  else if even m then m else m + 1)
        in sgn n * int (m' * q))"

text \<open>
  \<^verbatim>\<open>addRecipe\<close> takes the largest id from the \<^verbatim>\<open>recipes\<close> that its render captured and
  puts the new recipe in front of the live collection (\<^verbatim>\<open>setRecipes(prev => ...)\<close>).
  \<^verbatim>\<open>Math.max(...ids)\<close> spreads the ids into arguments and throws a \<^verbatim>\<open>RangeError\<close> when
  there are more of them than the engine takes; that number is the argument
  \<open>spread_limit\<close>. The error is thrown on to the caller and the collection stays as
  it is. Otherwise the function returns the new id, and the model the new live
  collection with it.
\<close>

datatype error = RangeError

definition addRecipe ::
  "nat \<Rightarrow> recipe_input \<Rightarrow> string \<Rightarrow> recipe list \<Rightarrow> recipe list \<Rightarrow> error + int \<times> recipe list" where
  "addRecipe spread_limit d published rendered live =
     (if length rendered > spread_limit then Inl RangeError
      else
        let newId = to_double (maxId rendered + 1)
        in Inr (newId, newRecipe d published newId # live))"

subsection \<open>Reviews and the aggregates of a recipe\<close>

definition recompute :: "review list \<Rightarrow> recipe \<Rightarrow> recipe" where
  \<comment> \<open>the callback of \<^verbatim>\<open>loadData\<close> that recalculates one recipe from the loaded reviews\<close>
  "recompute reviewsData r =
     (let recipeReviews = filter (\<lambda>v. review_RecipeId v = RecipeId r) reviewsData;
          reviewCount = length recipeReviews;
          aggregatedRating =
            (if reviewCount > 0
             then foldl (\<lambda>sum v. sum + Rating v) 0 recipeReviews / real reviewCount
             else AggregatedRating r)
      in r\<lparr>AggregatedRating := aggregatedRating, ReviewCount := int reviewCount\<rparr>)"

definition loadData :: "recipe list \<Rightarrow> review list \<Rightarrow> recipe_state" where
  \<comment> \<open>the state after \<^verbatim>\<open>loadData\<close>, from the processed recipes and the bundled reviews:
      the reviews are stored, and the recipes recalculated, only when there is a review\<close>
  "loadData processedRecipes reviewsData =
     (if length reviewsData > 0
      then \<lparr>recipes = map (recompute reviewsData) processedRecipes, reviews = reviewsData\<rparr>
      else \<lparr>recipes = processedRecipes, reviews = []\<rparr>)"

text \<open>
  \<^verbatim>\<open>addReview\<close> puts the new review in front of the live reviews and adds 1 to the live
  count of the recipe, both with functional updates; the new rating is computed from
  \<open>rendered\<close>, the \<^verbatim>\<open>reviews\<close> that the context value of the calling render captured.
\<close>

definition addReview ::
  "reviewData \<Rightarrow> nat \<Rightarrow> string \<Rightarrow> string \<Rightarrow> review list \<Rightarrow> recipe_state \<Rightarrow> recipe_state" where
  \<comment> \<open>\<open>now\<close> is \<^verbatim>\<open>Date.now()\<close>; \<open>submitted\<close> and \<open>modified\<close> are the two time stamps\<close>
  "addReview d now submitted modified rendered st =
     (let newReview =
            \<lparr> review_RecipeId = review_RecipeId d,
              review_AuthorId = review_AuthorId d,
              review_AuthorName = review_AuthorName d,
              Rating = Rating d,
              Review = Review d,
              ReviewId = now,
              DateSubmitted = Some submitted,
              DateModified = modified \<rparr>;
          currentReviews = filter (\<lambda>v. review_RecipeId v = review_RecipeId d) rendered;
          totalRatings = foldl (\<lambda>sum v. sum + Rating v) 0 currentReviews + Rating d;
          newRating = totalRatings / real (length currentReviews + 1)
      in \<lparr> recipes =
             map (\<lambda>r. if RecipeId r = review_RecipeId d
                      then r\<lparr>AggregatedRating := newRating, ReviewCount := ReviewCount r + 1\<rparr>
                      else r)
               (recipes st),
           reviews = newReview # reviews st \<rparr>)"

definition getReviewsForRecipe :: "int \<Rightarrow> recipe_state \<Rightarrow> review list" where
  "getReviewsForRecipe rid st = filter (\<lambda>v. review_RecipeId v = rid) (reviews st)"

section \<open>FolderContext: folders and bookmarks\<close>

text \<open>
  The types \<^verbatim>\<open>Bookmark\<close> and \<^verbatim>\<open>Folder\<close>, and the \<^verbatim>\<open>User\<close> of the authentication
  context, of which only \<^verbatim>\<open>id\<close> is read here. The fields \<^verbatim>\<open>id\<close>, \<^verbatim>\<open>userId\<close>,
  \<^verbatim>\<open>createdAt\<close> and \<^verbatim>\<open>name\<close> carry the name of their type in front. The state of the
  provider is the pair of the two collections; the current user comes from the
  authentication context and is an argument of every operation (\<open>None\<close> when nobody is
  signed in). \<^verbatim>\<open>Date.now()\<close> and \<^verbatim>\<open>new Date().toISOString()\<close> are arguments as well.
  The notifications (\<^verbatim>\<open>toast\<close>) are not modelled.
\<close>

record user =
  user_id :: string
  username :: string
  email :: string
  user_name :: string

record bookmark =
  bookmark_id :: string
  recipeId :: int
  bookmark_userId :: string
  folderId :: string
  rating :: real
  bookmark_createdAt :: string

record folder =
  folder_id :: string
  folder_name :: string
  folder_userId :: string
  color :: string
  icon :: string
  folder_createdAt :: string

record folder_state =
  folders :: "folder list"
  bookmarks :: "bookmark list"

text \<open>
  The partial records given to \<^verbatim>\<open>updateBookmark\<close> and \<^verbatim>\<open>updateFolder\<close>: a key that is
  absent is \<open>None\<close>. The spread \<^verbatim>\<open>{ ...bookmark, ...data }\<close> overwrites the keys present.
\<close>

record bookmark_patch =
  patch_folderId :: "string option"
  patch_rating :: "real option"

record folder_patch =
  patch_name :: "string option"
  patch_color :: "string option"
  patch_icon :: "string option"

definition merge_bookmark :: "bookmark \<Rightarrow> bookmark_patch \<Rightarrow> bookmark" where
  "merge_bookmark b d =
     b\<lparr> folderId := (case patch_folderId d of None \<Rightarrow> folderId b | Some f \<Rightarrow> f),
        rating := (case patch_rating d of None \<Rightarrow> rating b | Some r \<Rightarrow> r) \<rparr>"

definition merge_folder :: "folder \<Rightarrow> folder_patch \<Rightarrow> folder" where
  "merge_folder f d =
     f\<lparr> folder_name := (case patch_name d of None \<Rightarrow> folder_name f | Some n \<Rightarrow> n),
        color := (case patch_color d of None \<Rightarrow> color f | Some c \<Rightarrow> c),
        icon := (case patch_icon d of None \<Rightarrow> icon f | Some i \<Rightarrow> i) \<rparr>"

definition createFolder ::
  "user option \<Rightarrow> string \<Rightarrow> string option \<Rightarrow> string option \<Rightarrow> nat \<Rightarrow> string \<Rightarrow>
   folder_state \<Rightarrow> folder_state" where
  \<comment> \<open>the colour and the icon have defaults\<close>
  "createFolder usr nm col ic now created st =
     (case usr of None \<Rightarrow> st
      | Some u \<Rightarrow>
          let newFolder =
            \<lparr> folder_id = ''folder_'' @ digits now,
              folder_name = nm,
              folder_userId = user_id u,
              color = (case col of None \<Rightarrow> ''#ff9f7f'' | Some c \<Rightarrow> c),
              icon = (case ic of None \<Rightarrow> ''bookmark'' | Some i \<Rightarrow> i),
              folder_createdAt = created \<rparr>
          in st\<lparr>folders := folders st @ [newFolder]\<rparr>)"

definition updateFolder :: "user option \<Rightarrow> string \<Rightarrow> folder_patch \<Rightarrow> folder_state \<Rightarrow> folder_state" where
  "updateFolder usr fid d st =
     (case usr of None \<Rightarrow> st
      | Some u \<Rightarrow>
          st\<lparr>folders := map (\<lambda>f. if folder_id f = fid then merge_folder f d else f) (folders st)\<rparr>)"

definition deleteFolder :: "user option \<Rightarrow> string \<Rightarrow> folder_state \<Rightarrow> folder_state" where
  "deleteFolder usr fid st =
     (case usr of None \<Rightarrow> st
      | Some u \<Rightarrow>
          st\<lparr> folders := filter (\<lambda>f. folder_id f \<noteq> fid) (folders st),
              bookmarks := filter (\<lambda>b. folderId b \<noteq> fid) (bookmarks st) \<rparr>)"

definition updateBookmark :: "user option \<Rightarrow> string \<Rightarrow> bookmark_patch \<Rightarrow> folder_state \<Rightarrow> folder_state" where
  "updateBookmark usr bid d st =
     (case usr of None \<Rightarrow> st
      | Some u \<Rightarrow>
          st\<lparr>bookmarks :=
               map (\<lambda>b. if bookmark_id b = bid then merge_bookmark b d else b) (bookmarks st)\<rparr>)"

definition addBookmark ::
  "user option \<Rightarrow> int \<Rightarrow> string \<Rightarrow> real \<Rightarrow> nat \<Rightarrow> string \<Rightarrow> folder_state \<Rightarrow> folder_state" where
  "addBookmark usr rid fid rt now created st =
     (case usr of None \<Rightarrow> st
      | Some u \<Rightarrow>
          (case find (\<lambda>b. recipeId b = rid \<and> bookmark_userId b = user_id u) (bookmarks st) of
             Some existingBookmark \<Rightarrow>
               updateBookmark usr (bookmark_id existingBookmark)
                 \<lparr>patch_folderId = Some fid, patch_rating = Some rt\<rparr> st
           | None \<Rightarrow>
               let newBookmark =
                 \<lparr> bookmark_id = ''bookmark_'' @ digits now,
                   recipeId = rid,
                   bookmark_userId = user_id u,
                   folderId = fid,
                   rating = rt,
                   bookmark_createdAt = created \<rparr>
               in st\<lparr>bookmarks := bookmarks st @ [newBookmark]\<rparr>))"

text \<open>
  \<^verbatim>\<open>addBookmark\<close> looks for the existing bookmark in the \<^verbatim>\<open>bookmarks\<close> that its render
  captured, and writes (the update, or the new bookmark at the end) with a functional
  update on the live collection. \<open>addBookmark\<close> above is the call from a render that
  shows the live collection; \<open>addBookmark_render\<close> is the call with any rendered
  collection. No other operation of the store reads a collection before it writes.
\<close>

definition addBookmark_render ::
  "user option \<Rightarrow> bookmark list \<Rightarrow> int \<Rightarrow> string \<Rightarrow> real \<Rightarrow> nat \<Rightarrow> string \<Rightarrow>
   folder_state \<Rightarrow> folder_state" where
  "addBookmark_render usr rendered rid fid rt now created st =
     (case usr of None \<Rightarrow> st
      | Some u \<Rightarrow>
          (case find (\<lambda>b. recipeId b = rid \<and> bookmark_userId b = user_id u) rendered of
             Some existingBookmark \<Rightarrow>
               updateBookmark usr (bookmark_id existingBookmark)
                 \<lparr>patch_folderId = Some fid, patch_rating = Some rt\<rparr> st
           | None \<Rightarrow>
               let newBookmark =
                 \<lparr> bookmark_id = ''bookmark_'' @ digits now,
                   recipeId = rid,
                   bookmark_userId = user_id u,
                   folderId = fid,
                   rating = rt,
                   bookmark_createdAt = created \<rparr>
               in st\<lparr>bookmarks := bookmarks st @ [newBookmark]\<rparr>))"

definition removeBookmark :: "user option \<Rightarrow> string \<Rightarrow> folder_state \<Rightarrow> folder_state" where
  "removeBookmark usr bid st =
     (case usr of None \<Rightarrow> st
      | Some u \<Rightarrow> st\<lparr>bookmarks := filter (\<lambda>b. bookmark_id b \<noteq> bid) (bookmarks st)\<rparr>)"

definition getBookmarksByFolder :: "user option \<Rightarrow> string \<Rightarrow> folder_state \<Rightarrow> bookmark list" where
  "getBookmarksByFolder usr fid st =
     (case usr of None \<Rightarrow> []
      | Some u \<Rightarrow> filter (\<lambda>b. bookmark_userId b = user_id u \<and> folderId b = fid) (bookmarks st))"

definition getBookmarkByRecipeId :: "user option \<Rightarrow> int \<Rightarrow> folder_state \<Rightarrow> bookmark option" where
  "getBookmarkByRecipeId usr rid st =
     (case usr of None \<Rightarrow> None
      | Some u \<Rightarrow> find (\<lambda>b. bookmark_userId b = user_id u \<and> recipeId b = rid) (bookmarks st))"

definition getUserFolders :: "user option \<Rightarrow> folder_state \<Rightarrow> folder list" where
  "getUserFolders usr st =
     (case usr of None \<Rightarrow> []
      | Some u \<Rightarrow> filter (\<lambda>f. folder_userId f = user_id u) (folders st))"

definition getFolderById :: "string \<Rightarrow> folder_state \<Rightarrow> folder option" where
  \<comment> \<open>the one operation that does not look at the current user\<close>
  "getFolderById fid st = find (\<lambda>f. folder_id f = fid) (folders st)"

text \<open>A call of one of the six mutating operations, made by the user who is signed in,
  from a render that shows the live collections.\<close>

datatype call =
    CreateFolder string "string option" "string option" nat string
  | UpdateFolder string folder_patch
  | DeleteFolder string
  | AddBookmark int string real nat string
  | UpdateBookmark string bookmark_patch
  | RemoveBookmark string

fun perform :: "user option \<Rightarrow> call \<Rightarrow> folder_state \<Rightarrow> folder_state" where
  "perform usr (CreateFolder nm col ic now created) st = createFolder usr nm col ic now created st"
| "perform usr (UpdateFolder fid d) st = updateFolder usr fid d st"
| "perform usr (DeleteFolder fid) st = deleteFolder usr fid st"
| "perform usr (AddBookmark rid fid rt now created) st = addBookmark usr rid fid rt now created st"
| "perform usr (UpdateBookmark bid d) st = updateBookmark usr bid d st"
| "perform usr (RemoveBookmark bid) st = removeBookmark usr bid st"

definition bookmarks_of :: "string \<Rightarrow> int \<Rightarrow> folder_state \<Rightarrow> bookmark list" where
  \<comment> \<open>the bookmarks of the store for one pair of a user id and a recipe id\<close>
  "bookmarks_of uid rid st =
     filter (\<lambda>b. bookmark_userId b = uid \<and> recipeId b = rid) (bookmarks st)"

section \<open>Notions used in the statements\<close>

text \<open>A matrix of \<open>h + 1\<close> rows of \<open>w + 1\<close> cells, and the distance between two
  prefixes, which is what a cell of the matrix holds in the end.\<close>

definition wf_matrix :: "nat \<Rightarrow> nat \<Rightarrow> matrix \<Rightarrow> bool" where
  "wf_matrix h w m = (length m = Suc h \<and> (\<forall>j < length m. length (m ! j) = Suc w))"

definition prefix_distance :: "string \<Rightarrow> string \<Rightarrow> nat \<Rightarrow> nat \<Rightarrow> nat" where
  "prefix_distance a b i j = spec_editDistance (rev (take i a)) (rev (take j b))"

text \<open>The invariant of the bookmark collection: no pair of a user and a recipe has two
  bookmarks.\<close>

definition at_most_one :: "folder_state \<Rightarrow> bool" where
  "at_most_one st = (\<forall>uid rid. length (bookmarks_of uid rid st) \<le> 1)"

text \<open>The literal, case-insensitive occurrence of a query in a field, and in one of the
  four fields of a recipe that the search reads.\<close>

definition ci_contains :: "string \<Rightarrow> string \<Rightarrow> bool" where
  "ci_contains field q = (\<exists>u v. toLowerCase field = u @ toLowerCase q @ v)"

definition literal_hit :: "string \<Rightarrow> recipe \<Rightarrow> bool" where
  "literal_hit q r =
     (ci_contains (Name r) q \<or> ci_contains (Description r) q \<or>
      (\<exists>k \<in> set (Keywords r). ci_contains k q) \<or>
      (\<exists>i \<in> set (RecipeIngredientParts r). ci_contains i q))"

text \<open>The acceptance test of the fuzzy pass as the specification words it, with the bound
  taken from the length of each word of the target; it is compared with
  \<open>isFuzzyMatch\<close> below.\<close>

definition spec_fuzzyMatch_per_word :: "string \<Rightarrow> string \<Rightarrow> rat \<Rightarrow> bool" where
  "spec_fuzzyMatch_per_word source target tolerance =
     list_ex (\<lambda>w. 3 \<le> length w \<and>
        list_ex (\<lambda>v. 3 \<le> length v \<and>
           getLevenshteinDistance v w \<le> max (nat \<lfloor>of_nat (length w) * tolerance\<rfloor>) 1)
          (split_ws (toLowerCase source)))
       (split_ws (toLowerCase target))"

text \<open>The reviews of one recipe, their mean rating, and the invariant of the review
  ledger: every recipe carries the count and, when there is one, the mean of its stored
  reviews.\<close>

definition reviews_for :: "int \<Rightarrow> review list \<Rightarrow> review list" where
  "reviews_for rid vs = filter (\<lambda>v. review_RecipeId v = rid) vs"

definition mean_rating :: "review list \<Rightarrow> real" where
  "mean_rating vs = sum_list (map Rating vs) / real (length vs)"

definition aggregates_consistent :: "recipe_state \<Rightarrow> bool" where
  "aggregates_consistent st =
     list_all (\<lambda>r.
        ReviewCount r = int (length (reviews_for (RecipeId r) (reviews st))) \<and>
        (0 < length (reviews_for (RecipeId r) (reviews st)) \<longrightarrow>
           AggregatedRating r = mean_rating (reviews_for (RecipeId r) (reviews st))))
       (recipes st)"

section \<open>Example data\<close>

definition recipe0 :: recipe where
  "recipe0 =
     \<lparr> RecipeId = 1, Name = ''Chocolate Cake'', AuthorId = ''1'', AuthorName = ''Ann'',
       CookTime = ''PT30M'', PrepTime = ''PT15M'', TotalTime = ''PT45M'',
       DatePublished = ''2024-01-01T00:00:00.000Z'', Description = ''A rich dessert'',
       Images = [], RecipeCategory = ''Dessert'', Keywords = [''Sweet''],
       RecipeIngredientQuantities = [''2''], RecipeIngredientParts = [''flour''],
       AggregatedRating = 4, ReviewCount = 3, Calories = 0, FatContent = 0,
       SaturatedFatContent = 0, CholesterolContent = 0, SodiumContent = 0,
       CarbohydrateContent = 0, FiberContent = 0, SugarContent = 0, ProteinContent = 0,
       RecipeServings = 4, RecipeYield = '''', RecipeInstructions = [''Bake''] \<rparr>"

definition recipe_cake :: recipe where
  "recipe_cake = recipe0\<lparr>RecipeId := 2, Name := ''Cake'', Description := ''Plain''\<rparr>"

definition input0 :: recipe_input where
  "input0 =
     \<lparr> name = ''Soup'', description = ''Warm'', instructions = ''Boil'', category = ''Dinner'',
       authorId = ''1'', authorName = ''Ann'', prepTime = 15, cookTime = 30, servings = 4,
       keywords_str = None, imageUrl = None, recipeYield = None,
       ingredientQuantities = [''1''], ingredientParts = [''water''] \<rparr>"

definition alice :: user where
  "alice = \<lparr>user_id = ''alice'', username = ''alice'', email = ''alice@example.org'', user_name = ''Alice''\<rparr>"

definition bob :: user where
  "bob = \<lparr>user_id = ''bob'', username = ''bob'', email = ''bob@example.org'', user_name = ''Bob''\<rparr>"

definition store0 :: folder_state where
  "store0 =
     \<lparr> folders =
         [\<lparr>folder_id = ''folder_1'', folder_name = ''Favorites'', folder_userId = ''bob'',
           color = ''#ff9f7f'', icon = ''heart'', folder_createdAt = ''2024-01-01T00:00:00.000Z''\<rparr>],
       bookmarks =
         [\<lparr>bookmark_id = ''bookmark_7'', recipeId = 5, bookmark_userId = ''bob'',
           folderId = ''folder_1'', rating = 4, bookmark_createdAt = ''2024-01-02T00:00:00.000Z''\<rparr>] \<rparr>"

definition store1 :: folder_state where
  "store1 =
     \<lparr> folders =
         [\<lparr>folder_id = ''folder_1'', folder_name = ''Favorites'', folder_userId = ''bob'',
           color = ''#ff9f7f'', icon = ''heart'', folder_createdAt = ''2024-01-01T00:00:00.000Z''\<rparr>,
          \<lparr>folder_id = ''folder_2'', folder_name = ''Try Later'', folder_userId = ''alice'',
           color = ''#7fb1ff'', icon = ''clock'', folder_createdAt = ''2024-01-01T00:00:00.000Z''\<rparr>],
       bookmarks =
         [\<lparr>bookmark_id = ''bookmark_7'', recipeId = 5, bookmark_userId = ''bob'',
           folderId = ''folder_1'', rating = 4, bookmark_createdAt = ''2024-01-02T00:00:00.000Z''\<rparr>,
          \<lparr>bookmark_id = ''bookmark_8'', recipeId = 5, bookmark_userId = ''alice'',
           folderId = ''folder_2'', rating = 5, bookmark_createdAt = ''2024-01-03T00:00:00.000Z''\<rparr>] \<rparr>"

definition review0 :: review where
  "review0 =
     \<lparr> review_RecipeId = 2, review_AuthorId = 9, review_AuthorName = ''Cy'', Rating = 5,
       Review = ''Good'', ReviewId = 100, DateSubmitted = Some ''2024-01-01T00:00:00.000Z'',
       DateModified = ''2024-01-01T00:00:00.000Z'' \<rparr>"

definition reviewData1 :: reviewData where
  "reviewData1 =
     \<lparr> review_RecipeId = 1, review_AuthorId = 9, review_AuthorName = ''Cy'', Rating = 4,
       Review = ''Nice'' \<rparr>"

definition processed0 :: "recipe list" where
  "processed0 = [recipe0, recipe_cake, recipe0\<lparr>RecipeId := 3, AggregatedRating := 9 / 2\<rparr>]"

text \<open>Two calls for one recipe made from one render: Alice bookmarks recipe 5 twice from
  a render of \<open>store0\<close>, and recipe 1 is reviewed twice (ratings 4 and 2) through the
  context value of the state that \<^verbatim>\<open>loadData\<close> left.\<close>

definition store0_twice :: folder_state where
  "store0_twice =
     addBookmark_render (Some alice) (bookmarks store0) 5 ''folder_3'' 2 1700000000001
       ''2024-01-04T00:00:00.000Z''
       (addBookmark_render (Some alice) (bookmarks store0) 5 ''folder_2'' 4 1700000000000
          ''2024-01-03T00:00:00.000Z'' store0)"

definition loaded0 :: recipe_state where
  "loaded0 = loadData processed0 [review0]"

definition loaded0_twice :: recipe_state where
  "loaded0_twice =
     addReview (reviewData1\<lparr>Rating := 2\<rparr>) 102 ''2024-02-02T00:00:00.000Z''
       ''2024-02-02T00:00:00.000Z'' (reviews loaded0)
       (addReview reviewData1 101 ''2024-02-01T00:00:00.000Z'' ''2024-02-01T00:00:00.000Z''
          (reviews loaded0) loaded0)"

section \<open>The edit distance\<close>

subsection \<open>The recursion is a metric\<close>

lemma edr_Nil2 [simp]: "spec_editDistance xs [] = length xs"
  by (cases xs) auto

lemma edr_sym: "spec_editDistance xs ys = spec_editDistance ys xs"
  by (induction xs ys rule: spec_editDistance.induct) (auto simp: min.commute min.left_commute)

lemma edr_refl: "spec_editDistance xs xs = 0"
  by (induction xs) auto

lemma edr_le_sum: "spec_editDistance xs ys \<le> length xs + length ys"
  by (induction xs ys rule: spec_editDistance.induct) (auto simp: min_def)

lemma edr_len_diff: "length ys \<le> length xs + spec_editDistance xs ys"
  by (induction xs ys rule: spec_editDistance.induct) (auto simp: min_def)

lemma edr_len_diff2: "length xs \<le> spec_editDistance xs ys + length ys"
  using edr_len_diff [of xs ys] by (simp add: edr_sym [of xs ys] add.commute)

lemma edr_del: "spec_editDistance (x # xs) ys \<le> spec_editDistance xs ys + 1"
proof (cases ys)
  case Nil
  then show ?thesis by simp
next
  case (Cons y ys')
  then show ?thesis by simp
qed

lemma edr_ins: "spec_editDistance xs (y # ys) \<le> spec_editDistance xs ys + 1"
  using edr_del [of y ys xs] by (simp add: edr_sym [of xs])

lemma edr_sub: "spec_editDistance (x # xs) (y # ys) \<le> spec_editDistance xs ys + (if x = y then 0 else 1)"
  by simp

lemma edr_cases:
  "spec_editDistance (x # xs) (y # ys) = spec_editDistance xs (y # ys) + 1 \<or>
   spec_editDistance (x # xs) (y # ys) = spec_editDistance (x # xs) ys + 1 \<or>
   spec_editDistance (x # xs) (y # ys) = spec_editDistance xs ys + (if x = y then 0 else 1)"
  by (simp add: min_def)

lemma edr_triangle:
  "spec_editDistance a b \<le> spec_editDistance a c + spec_editDistance c b"
proof (induction "length a + length b + length c" arbitrary: a b c rule: less_induct)
  case less
  note IH = less
  show ?case
  proof (cases a)
    case Nil
    then show ?thesis using edr_len_diff [of b c] by simp
  next
    case a: (Cons x a')
    show ?thesis
    proof (cases b)
      case Nil
      then show ?thesis using edr_len_diff2 [of a c] by simp
    next
      case b: (Cons y b')
      show ?thesis
      proof (cases c)
        case Nil
        then show ?thesis using edr_le_sum [of a b] by simp
      next
        case c: (Cons z c')
        let ?d = spec_editDistance
        have ih1: "?d a' b \<le> ?d a' c + ?d c b" using IH [of a' b c] a by simp
        have ih2: "?d a b' \<le> ?d a c + ?d c b'" using IH [of a b' c] b by simp
        have ih3: "?d a b \<le> ?d a c' + ?d c' b" using IH [of a b c'] c by simp
        have ih4: "?d a b' \<le> ?d a c' + ?d c' b'" using IH [of a b' c'] b c by simp
        have ih5: "?d a' b \<le> ?d a' c' + ?d c' b" using IH [of a' b c'] a c by simp
        have ih6: "?d a' b' \<le> ?d a' c' + ?d c' b'" using IH [of a' b' c'] a b c by simp
        have del: "?d a b \<le> ?d a' b + 1" unfolding a by (rule edr_del)
        have ins: "?d a b \<le> ?d a b' + 1" unfolding b by (rule edr_ins)
        have sub: "?d a b \<le> ?d a' b' + (if x = y then 0 else 1)" unfolding a b by (rule edr_sub)
        have ac: "?d a c = ?d a' c + 1 \<or> ?d a c = ?d a c' + 1 \<or>
                  ?d a c = ?d a' c' + (if x = z then 0 else 1)"
          unfolding a c by (rule edr_cases)
        have cb: "?d c b = ?d c' b + 1 \<or> ?d c b = ?d c b' + 1 \<or>
                  ?d c b = ?d c' b' + (if z = y then 0 else 1)"
          unfolding c b by (rule edr_cases)
        from ac cb show ?thesis
          using ih1 ih2 ih3 ih4 ih5 ih6 del ins sub
          by (auto split: if_splits)
      qed
    qed
  qed
qed

subsection \<open>The matrix computes the recursion\<close>

lemma wf_set_cell: "wf_matrix h w m \<Longrightarrow> wf_matrix h w (set_cell m j i v)"
proof -
  assume wf: "wf_matrix h w m"
  have "length ((set_cell m j i v) ! j') = Suc w" if "j' < length m" for j'
    using that wf by (cases "j' = j") (auto simp: wf_matrix_def set_cell_def)
  with wf show ?thesis by (simp add: wf_matrix_def set_cell_def)
qed

lemma cell_set_cell:
  "wf_matrix h w m \<Longrightarrow> j \<le> h \<Longrightarrow> i \<le> w \<Longrightarrow>
   cell (set_cell m j i v) j' i' = (if j' = j \<and> i' = i then v else cell m j' i')"
  by (auto simp: wf_matrix_def set_cell_def cell_def nth_list_update)

lemma wf_new_matrix: "wf_matrix (length b) (length a) (new_matrix a b)"
  unfolding wf_matrix_def new_matrix_def by (simp del: replicate_Suc)

text \<open>Row 0.\<close>

lemma first_row:
  "wf_matrix h w m \<Longrightarrow> k \<le> Suc w \<Longrightarrow>
   wf_matrix h w (fold (\<lambda>i m. set_cell m 0 i i) [0..<k] m) \<and>
   (\<forall>i < k. cell (fold (\<lambda>i m. set_cell m 0 i i) [0..<k] m) 0 i = i)"
proof (induction k)
  case 0
  then show ?case by simp
next
  case (Suc k)
  then show ?case
    by (auto simp: wf_set_cell cell_set_cell less_Suc_eq)
qed

lemma first_column:
  "wf_matrix h w m \<Longrightarrow> k \<le> Suc h \<Longrightarrow> \<forall>i \<le> w. cell m 0 i = i \<Longrightarrow>
   wf_matrix h w (fold (\<lambda>j m. set_cell m j 0 j) [0..<k] m) \<and>
   (\<forall>i \<le> w. cell (fold (\<lambda>j m. set_cell m j 0 j) [0..<k] m) 0 i = i) \<and>
   (\<forall>j < k. cell (fold (\<lambda>j m. set_cell m j 0 j) [0..<k] m) j 0 = j)"
proof (induction k)
  case 0
  then show ?case by simp
next
  case (Suc k)
  then show ?case
    by (auto simp: wf_set_cell cell_set_cell less_Suc_eq)
qed

lemma prefix_distance_0_left: "j \<le> length b \<Longrightarrow> prefix_distance a b 0 j = j"
  by (simp add: prefix_distance_def)

lemma prefix_distance_0_right: "i \<le> length a \<Longrightarrow> prefix_distance a b i 0 = i"
  by (simp add: prefix_distance_def)

lemma prefix_distance_Suc:
  "i < length a \<Longrightarrow> j < length b \<Longrightarrow>
   prefix_distance a b (Suc i) (Suc j) =
     min (min (prefix_distance a b i (Suc j) + 1) (prefix_distance a b (Suc i) j + 1))
         (prefix_distance a b i j + (if a ! i = b ! j then 0 else 1))"
  by (simp add: prefix_distance_def take_Suc_conv_app_nth)

lemma fill_cell_row:
  assumes wf: "wf_matrix (length b) (length a) m"
    and j: "0 < j" "j \<le> length b"
    and prev: "\<forall>i \<le> length a. cell m (j - 1) i = prefix_distance a b i (j - 1)"
    and col0: "cell m j 0 = j"
    and k: "k \<le> length a"
  shows "wf_matrix (length b) (length a) (fold (fill_cell a b j) [1..<Suc k] m) \<and>
         (\<forall>i \<le> k. cell (fold (fill_cell a b j) [1..<Suc k] m) j i = prefix_distance a b i j) \<and>
         (\<forall>j' i'. j' \<noteq> j \<longrightarrow> cell (fold (fill_cell a b j) [1..<Suc k] m) j' i' = cell m j' i')"
  using k
proof (induction k)
  case 0
  with wf col0 j show ?case by (simp add: prefix_distance_0_left)
next
  case (Suc k)
  let ?m = "fold (fill_cell a b j) [1..<Suc k] m"
  from Suc have kl: "k < length a" by simp
  from Suc have wf': "wf_matrix (length b) (length a) ?m"
    and row: "\<forall>i \<le> k. cell ?m j i = prefix_distance a b i j"
    and other: "\<forall>j' i'. j' \<noteq> j \<longrightarrow> cell ?m j' i' = cell m j' i'"
    by simp_all
  obtain j0 where j0: "j = Suc j0" using j by (cases j) auto
  have up: "cell ?m j0 (Suc k) = prefix_distance a b (Suc k) j0"
    using other prev kl j0 by simp
  have diag: "cell ?m j0 k = prefix_distance a b k j0"
    using other prev kl j0 by simp
  have left: "cell ?m j k = prefix_distance a b k j"
    using row by simp
  have new: "fold (fill_cell a b j) [1..<Suc (Suc k)] m = fill_cell a b j (Suc k) ?m"
    by simp
  have val: "fill_cell a b j (Suc k) ?m = set_cell ?m j (Suc k) (prefix_distance a b (Suc k) j)"
    using up diag left kl j j0
    by (simp add: fill_cell_def prefix_distance_Suc Let_def)
  show ?case
    unfolding new val
    using wf' row other j kl
    by (auto simp: wf_set_cell cell_set_cell le_Suc_eq)
qed

lemma fill_row_correct:
  assumes wf: "wf_matrix (length b) (length a) m"
    and j: "0 < j" "j \<le> length b"
    and prev: "\<forall>i \<le> length a. cell m (j - 1) i = prefix_distance a b i (j - 1)"
    and col0: "cell m j 0 = j"
  shows "wf_matrix (length b) (length a) (fill_row a b j m)"
    and "\<forall>i \<le> length a. cell (fill_row a b j m) j i = prefix_distance a b i j"
    and "\<forall>j' i'. j' \<noteq> j \<longrightarrow> cell (fill_row a b j m) j' i' = cell m j' i'"
  using fill_cell_row [OF wf j prev col0, of "length a"] by (simp_all add: fill_row_def)

lemma fill_rows:
  assumes wf: "wf_matrix (length b) (length a) m"
    and row0: "\<forall>i \<le> length a. cell m 0 i = i"
    and col0: "\<forall>j \<le> length b. cell m j 0 = j"
    and k: "k \<le> length b"
  shows "wf_matrix (length b) (length a) (fold (fill_row a b) [1..<Suc k] m) \<and>
         (\<forall>j \<le> k. \<forall>i \<le> length a.
            cell (fold (fill_row a b) [1..<Suc k] m) j i = prefix_distance a b i j) \<and>
         (\<forall>j. k < j \<longrightarrow> cell (fold (fill_row a b) [1..<Suc k] m) j 0 = cell m j 0)"
  using k
proof (induction k)
  case 0
  with wf row0 show ?case by (simp add: prefix_distance_0_right)
next
  case (Suc k)
  let ?m = "fold (fill_row a b) [1..<Suc k] m"
  from Suc have kl: "Suc k \<le> length b" by simp
  from Suc have wf': "wf_matrix (length b) (length a) ?m"
    and filled: "\<forall>j \<le> k. \<forall>i \<le> length a. cell ?m j i = prefix_distance a b i j"
    and rest: "\<forall>j. k < j \<longrightarrow> cell ?m j 0 = cell m j 0"
    by simp_all
  have prev: "\<forall>i \<le> length a. cell ?m (Suc k - 1) i = prefix_distance a b i (Suc k - 1)"
    using filled by simp
  have c0: "cell ?m (Suc k) 0 = Suc k"
    using rest col0 kl by simp
  have new: "fold (fill_row a b) [1..<Suc (Suc k)] m = fill_row a b (Suc k) ?m"
    by simp
  note fr = fill_row_correct [OF wf' _ kl prev c0]
  show ?case
    unfolding new
    using fr filled rest
    by (auto simp: le_Suc_eq)
qed

lemma getLevenshteinDistance_rec:
  "getLevenshteinDistance a b = spec_editDistance (rev a) (rev b)"
proof -
  let ?m0 = "new_matrix a b"
  let ?m1 = "fold (\<lambda>i m. set_cell m 0 i i) [0..<Suc (length a)] ?m0"
  let ?m2 = "fold (\<lambda>j m. set_cell m j 0 j) [0..<Suc (length b)] ?m1"
  let ?m3 = "fold (fill_row a b) [1..<Suc (length b)] ?m2"
  have r1: "wf_matrix (length b) (length a) ?m1" "\<forall>i \<le> length a. cell ?m1 0 i = i"
    using first_row [OF wf_new_matrix [of b a], of "Suc (length a)"]
    by (simp_all add: less_Suc_eq_le)
  have r2: "wf_matrix (length b) (length a) ?m2" "\<forall>i \<le> length a. cell ?m2 0 i = i"
    "\<forall>j \<le> length b. cell ?m2 j 0 = j"
    using first_column [OF r1(1) _ r1(2), of "Suc (length b)"]
    by (simp_all add: less_Suc_eq_le)
  have "cell ?m3 (length b) (length a) = prefix_distance a b (length a) (length b)"
    using fill_rows [OF r2(1) r2(2) r2(3), of "length b"] by simp
  then show ?thesis
    by (simp add: getLevenshteinDistance_def Let_def prefix_distance_def)
qed

text \<open>
  Claim C9. \<^verbatim>\<open>getLevenshteinDistance\<close> is a metric on strings: it is symmetric, it is 0
  on equal arguments, and it satisfies the triangle inequality.
\<close>

theorem getLevenshteinDistance_metric:
  "getLevenshteinDistance a b = getLevenshteinDistance b a \<and>
   getLevenshteinDistance a a = 0 \<and>
   getLevenshteinDistance a b \<le> getLevenshteinDistance a c + getLevenshteinDistance c b"
  unfolding getLevenshteinDistance_rec
  using edr_sym [of "rev a" "rev b"] edr_refl [of "rev a"] edr_triangle [of "rev a" "rev b" "rev c"]
  by simp

section \<open>The bookmark store\<close>

subsection \<open>At most one bookmark for a user and a recipe\<close>

lemma merge_bookmark_keys [simp]:
  "bookmark_id (merge_bookmark b d) = bookmark_id b"
  "recipeId (merge_bookmark b d) = recipeId b"
  "bookmark_userId (merge_bookmark b d) = bookmark_userId b"
  "bookmark_createdAt (merge_bookmark b d) = bookmark_createdAt b"
  by (simp_all add: merge_bookmark_def)

lemma bookmarks_of_updateBookmark:
  "bookmarks_of uid rid (updateBookmark usr bid d st) =
     (case usr of None \<Rightarrow> bookmarks_of uid rid st
      | Some u \<Rightarrow> map (\<lambda>b. if bookmark_id b = bid then merge_bookmark b d else b)
                    (bookmarks_of uid rid st))"
proof (cases usr)
  case None
  then show ?thesis by (simp add: updateBookmark_def bookmarks_of_def)
next
  case (Some u)
  let ?f = "\<lambda>b. if bookmark_id b = bid then merge_bookmark b d else b"
  let ?P = "\<lambda>b. bookmark_userId b = uid \<and> recipeId b = rid"
  have "?P \<circ> ?f = ?P" by (auto simp: fun_eq_iff)
  then have "filter ?P (map ?f (bookmarks st)) = map ?f (filter ?P (bookmarks st))"
    by (simp add: filter_map)
  then show ?thesis using Some by (simp add: updateBookmark_def bookmarks_of_def)
qed

lemma length_bookmarks_of_updateBookmark:
  "length (bookmarks_of uid rid (updateBookmark usr bid d st)) = length (bookmarks_of uid rid st)"
  by (cases usr) (simp_all add: bookmarks_of_updateBookmark)

lemma length_bookmarks_of_removeBookmark:
  "length (bookmarks_of uid rid (removeBookmark usr bid st)) \<le> length (bookmarks_of uid rid st)"
proof (cases usr)
  case None
  then show ?thesis by (simp add: removeBookmark_def)
next
  case (Some u)
  have "bookmarks_of uid rid (removeBookmark usr bid st) =
        filter (\<lambda>b. bookmark_id b \<noteq> bid) (bookmarks_of uid rid st)"
    using Some by (auto simp: bookmarks_of_def removeBookmark_def intro: filter_cong)
  then show ?thesis by simp
qed

lemma length_bookmarks_of_deleteFolder:
  "length (bookmarks_of uid rid (deleteFolder usr fid st)) \<le> length (bookmarks_of uid rid st)"
proof (cases usr)
  case None
  then show ?thesis by (simp add: deleteFolder_def)
next
  case (Some u)
  have "bookmarks_of uid rid (deleteFolder usr fid st) =
        filter (\<lambda>b. folderId b \<noteq> fid) (bookmarks_of uid rid st)"
    using Some by (auto simp: bookmarks_of_def deleteFolder_def intro: filter_cong)
  then show ?thesis by simp
qed

lemma bookmarks_createFolder [simp]:
  "bookmarks (createFolder usr nm col ic now created st) = bookmarks st"
  by (cases usr) (simp_all add: createFolder_def Let_def)

lemma bookmarks_updateFolder [simp]:
  "bookmarks (updateFolder usr fid d st) = bookmarks st"
  by (cases usr) (simp_all add: updateFolder_def)

lemma find_bookmark_None:
  "find (\<lambda>b. recipeId b = rid \<and> bookmark_userId b = uid) (bookmarks st) = None \<Longrightarrow>
   bookmarks_of uid rid st = []"
  by (auto simp: bookmarks_of_def find_None_iff filter_empty_conv)

lemma find_bookmark_Some:
  "find (\<lambda>b. recipeId b = rid \<and> bookmark_userId b = uid) (bookmarks st) = Some e \<Longrightarrow>
   e \<in> set (bookmarks_of uid rid st)"
  by (auto simp: bookmarks_of_def find_Some_iff)

lemma at_most_one_addBookmark:
  assumes "at_most_one st"
  shows "at_most_one (addBookmark usr rid fid rt now created st)"
proof (cases usr)
  case None
  with assms show ?thesis by (simp add: addBookmark_def)
next
  case (Some u)
  show ?thesis
  proof (cases "find (\<lambda>b. recipeId b = rid \<and> bookmark_userId b = user_id u) (bookmarks st)")
    case None
    have empty: "bookmarks_of (user_id u) rid st = []"
      using None by (rule find_bookmark_None)
    have "length (bookmarks_of uid' rid' (addBookmark usr rid fid rt now created st)) \<le> 1"
      for uid' rid'
    proof (cases "uid' = user_id u \<and> rid' = rid")
      case True
      then show ?thesis
        using Some None empty by (simp add: addBookmark_def bookmarks_of_def Let_def)
    next
      case False
      then have "bookmarks_of uid' rid' (addBookmark usr rid fid rt now created st) =
                 bookmarks_of uid' rid' st"
        using Some None by (auto simp: addBookmark_def bookmarks_of_def Let_def)
      then show ?thesis using assms by (simp add: at_most_one_def)
    qed
    then show ?thesis by (simp add: at_most_one_def)
  next
    case (Some e)
    then show ?thesis
      using assms \<open>usr = Some u\<close>
      by (simp add: addBookmark_def at_most_one_def length_bookmarks_of_updateBookmark)
  qed
qed

lemma at_most_one_perform: "at_most_one st \<Longrightarrow> at_most_one (perform usr c st)"
proof (cases c)
  case (AddBookmark rid fid rt now created)
  assume "at_most_one st"
  then show ?thesis unfolding AddBookmark perform.simps by (rule at_most_one_addBookmark)
next
  case (DeleteFolder fid)
  assume "at_most_one st"
  then show ?thesis
    unfolding DeleteFolder perform.simps at_most_one_def
    using length_bookmarks_of_deleteFolder le_trans by blast
next
  case (RemoveBookmark bid)
  assume "at_most_one st"
  then show ?thesis
    unfolding RemoveBookmark perform.simps at_most_one_def
    using length_bookmarks_of_removeBookmark le_trans by blast
next
  case (UpdateBookmark bid d)
  assume "at_most_one st"
  then show ?thesis
    unfolding UpdateBookmark perform.simps at_most_one_def
    by (simp add: length_bookmarks_of_updateBookmark)
next
  case (CreateFolder nm col ic now created)
  assume "at_most_one st"
  then show ?thesis
    unfolding CreateFolder perform.simps at_most_one_def by (simp add: bookmarks_of_def)
next
  case (UpdateFolder fid d)
  assume "at_most_one st"
  then show ?thesis
    unfolding UpdateFolder perform.simps at_most_one_def by (simp add: bookmarks_of_def)
qed

lemma addBookmark_observed:
  assumes "at_most_one st"
  shows "\<exists>b. bookmarks_of (user_id u) rid (addBookmark (Some u) rid fid rt now created st) = [b] \<and>
             folderId b = fid \<and> rating b = rt"
proof (cases "find (\<lambda>b. recipeId b = rid \<and> bookmark_userId b = user_id u) (bookmarks st)")
  case None
  let ?new = "\<lparr> bookmark_id = ''bookmark_'' @ digits now, recipeId = rid,
                 bookmark_userId = user_id u, folderId = fid, rating = rt,
                 bookmark_createdAt = created \<rparr>"
  have empty: "bookmarks_of (user_id u) rid st = []"
    using None by (rule find_bookmark_None)
  have "bookmarks (addBookmark (Some u) rid fid rt now created st) = bookmarks st @ [?new]"
    by (simp add: addBookmark_def None)
  then have "bookmarks_of (user_id u) rid (addBookmark (Some u) rid fid rt now created st) =
             bookmarks_of (user_id u) rid st @ [?new]"
    by (simp add: bookmarks_of_def)
  then show ?thesis by (simp add: empty)
next
  case (Some e)
  have "e \<in> set (bookmarks_of (user_id u) rid st)"
    using Some by (rule find_bookmark_Some)
  moreover have "length (bookmarks_of (user_id u) rid st) \<le> 1"
    using assms by (simp add: at_most_one_def)
  ultimately have one: "bookmarks_of (user_id u) rid st = [e]"
    by (cases "bookmarks_of (user_id u) rid st") auto
  show ?thesis
    using Some one
    by (simp add: addBookmark_def bookmarks_of_updateBookmark merge_bookmark_def)
qed

lemma find_filter_hd:
  "find P xs = (case filter P xs of [] \<Rightarrow> None | x # _ \<Rightarrow> Some x)"
  by (induction xs) auto

lemma getBookmarkByRecipeId_bookmarks_of:
  "getBookmarkByRecipeId (Some u) rid st =
     (case bookmarks_of (user_id u) rid st of [] \<Rightarrow> None | b # _ \<Rightarrow> Some b)"
  by (simp add: getBookmarkByRecipeId_def bookmarks_of_def find_filter_hd)

text \<open>The invariant can be computed: it says that the pairs of a user and a recipe of
  the collection are distinct.\<close>

lemma length_filter_key_distinct:
  "(\<forall>k. length (filter (\<lambda>x. f x = k) xs) \<le> 1) = distinct (map f xs)"
proof (induction xs)
  case Nil
  then show ?case by simp
next
  case (Cons x xs)
  have "(\<forall>k. length (filter (\<lambda>y. f y = k) (x # xs)) \<le> 1) =
        (filter (\<lambda>y. f y = f x) xs = [] \<and> (\<forall>k. length (filter (\<lambda>y. f y = k) xs) \<le> 1))"
  proof
    assume a: "\<forall>k. length (filter (\<lambda>y. f y = k) (x # xs)) \<le> 1"
    then have "length (filter (\<lambda>y. f y = f x) (x # xs)) \<le> 1" by blast
    then have e: "filter (\<lambda>y. f y = f x) xs = []" by simp
    have "length (filter (\<lambda>y. f y = k) xs) \<le> 1" for k
    proof -
      have "length (filter (\<lambda>y. f y = k) xs) \<le> length (filter (\<lambda>y. f y = k) (x # xs))"
        by simp
      also have "\<dots> \<le> 1" using a by blast
      finally show ?thesis .
    qed
    with e show "filter (\<lambda>y. f y = f x) xs = [] \<and> (\<forall>k. length (filter (\<lambda>y. f y = k) xs) \<le> 1)"
      by blast
  next
    assume b: "filter (\<lambda>y. f y = f x) xs = [] \<and> (\<forall>k. length (filter (\<lambda>y. f y = k) xs) \<le> 1)"
    show "\<forall>k. length (filter (\<lambda>y. f y = k) (x # xs)) \<le> 1"
    proof
      fix k
      show "length (filter (\<lambda>y. f y = k) (x # xs)) \<le> 1"
        using b by (cases "f x = k") auto
    qed
  qed
  also have "\<dots> = (f x \<notin> f ` set xs \<and> distinct (map f xs))"
    using Cons.IH by (auto simp: filter_empty_conv image_iff)
  finally show ?case by simp
qed

lemma at_most_one_distinct:
  "at_most_one st = distinct (map (\<lambda>b. (bookmark_userId b, recipeId b)) (bookmarks st))"
proof -
  have "at_most_one st =
        (\<forall>k. length (filter (\<lambda>b. (bookmark_userId b, recipeId b) = k) (bookmarks st)) \<le> 1)"
    by (simp add: at_most_one_def bookmarks_of_def)
  then show ?thesis by (simp only: length_filter_key_distinct)
qed

text \<open>A call from a render that shows the live collection is the call above, for which
  the invariant and the observation hold (\<open>at_most_one_perform\<close>,
  \<open>addBookmark_observed\<close>).\<close>

lemma addBookmark_render_live:
  "addBookmark_render usr (bookmarks st) rid fid rt now created st =
   addBookmark usr rid fid rt now created st"
  by (simp add: addBookmark_render_def addBookmark_def)

lemma at_most_one_store0: "at_most_one store0"
  by (simp add: at_most_one_distinct store0_def)

lemma bookmarks_store0_twice:
  "map (\<lambda>b. (bookmark_userId b, recipeId b, folderId b, rating b)) (bookmarks store0_twice) =
     [(''bob'', 5, ''folder_1'', 4), (''alice'', 5, ''folder_2'', 4), (''alice'', 5, ''folder_3'', 2)]"
  by (simp add: store0_twice_def addBookmark_render_def store0_def alice_def)

text \<open>
  Claim C1. The claim is that, from a collection with at most one bookmark for every pair
  of a user and a recipe, every sequence of \<^verbatim>\<open>addBookmark\<close>, \<^verbatim>\<open>updateBookmark\<close>,
  \<^verbatim>\<open>removeBookmark\<close> and \<^verbatim>\<open>deleteFolder\<close> calls leaves at most one bookmark for every
  pair, and that after a final \<^verbatim>\<open>addBookmark\<close> the bookmark of the pair carries the
  folder and the rating of that call. The code does not keep this when two
  \<^verbatim>\<open>addBookmark\<close> calls for one recipe come from one render. Alice has no bookmark in
  \<open>store0\<close>, which holds at most one bookmark for every pair; she calls
  \<^verbatim>\<open>addBookmark(5, folder_2, 4)\<close> and then \<^verbatim>\<open>addBookmark(5, folder_3, 2)\<close> from one render
  of it. Both calls look into the rendered collection, find nothing and append: the
  store then holds two bookmarks for Alice and recipe 5, and \<^verbatim>\<open>getBookmarkByRecipeId\<close>
  returns the first, with the folder and the rating of the first call.
\<close>

theorem addBookmark_same_render:
  "at_most_one store0 \<and>
   \<not> at_most_one store0_twice \<and>
   map folderId (bookmarks_of ''alice'' 5 store0_twice) = [''folder_2'', ''folder_3''] \<and>
   map rating (bookmarks_of ''alice'' 5 store0_twice) = [4, 2] \<and>
   map_option folderId (getBookmarkByRecipeId (Some alice) 5 store0_twice) = Some ''folder_2'' \<and>
   map_option rating (getBookmarkByRecipeId (Some alice) 5 store0_twice) = Some 4"
proof -
  have "map (\<lambda>b. (bookmark_userId b, recipeId b)) (bookmarks store0_twice) =
          map (\<lambda>(u, r, f, t). (u, r)) [(''bob'', 5, ''folder_1'', 4 :: real),
            (''alice'', 5 :: int, ''folder_2'', 4), (''alice'', 5, ''folder_3'', 2)]"
    unfolding bookmarks_store0_twice [symmetric] by (simp add: comp_def)
  then have dup: "\<not> at_most_one store0_twice"
    by (simp add: at_most_one_distinct)
  have "bookmarks_of ''alice'' 5 store0_twice =
          filter (\<lambda>b. bookmark_userId b = ''alice'' \<and> recipeId b = 5) (bookmarks store0_twice)"
    by (simp add: bookmarks_of_def)
  have of_alice: "map (\<lambda>b. (folderId b, rating b)) (bookmarks_of ''alice'' 5 store0_twice) =
          [(''folder_2'', 4), (''folder_3'', 2)]"
    by (simp add: bookmarks_of_def store0_twice_def addBookmark_render_def store0_def alice_def)
  have fs: "map folderId (bookmarks_of ''alice'' 5 store0_twice) = [''folder_2'', ''folder_3'']"
    using arg_cong [OF of_alice, of "map fst"] by (simp add: comp_def)
  have rs: "map rating (bookmarks_of ''alice'' 5 store0_twice) = [4, 2]"
    using arg_cong [OF of_alice, of "map snd"] by (simp add: comp_def)
  have got: "map_option (\<lambda>b. (folderId b, rating b)) (getBookmarkByRecipeId (Some alice) 5 store0_twice) =
          Some (''folder_2'', 4)"
    by (simp add: getBookmarkByRecipeId_def store0_twice_def addBookmark_render_def store0_def
        alice_def)
  have gf: "map_option folderId (getBookmarkByRecipeId (Some alice) 5 store0_twice) = Some ''folder_2''"
    using arg_cong [OF got, of "map_option fst"] by (simp add: option.map_comp comp_def)
  have gr: "map_option rating (getBookmarkByRecipeId (Some alice) 5 store0_twice) = Some 4"
    using arg_cong [OF got, of "map_option snd"] by (simp add: option.map_comp comp_def)
  from at_most_one_store0 dup fs rs gf gr show ?thesis by (intro conjI)
qed

subsection \<open>The update branch of \<^verbatim>\<open>addBookmark\<close>\<close>

lemma find_existing:
  "find (\<lambda>b. recipeId b = rid \<and> bookmark_userId b = uid) (bookmarks st) =
   getBookmarkByRecipeId (Some \<lparr>user_id = uid, username = n, email = m, user_name = k\<rparr>) rid st"
  by (simp add: getBookmarkByRecipeId_def conj_commute)

lemma find_existing':
  "find (\<lambda>b. recipeId b = rid \<and> bookmark_userId b = user_id u) (bookmarks st) =
   getBookmarkByRecipeId (Some u) rid st"
  by (simp add: getBookmarkByRecipeId_def conj_commute)





subsection \<open>Deleting a folder; the current user\<close>

text \<open>
  Claim C5. The operations of the store are for a signed-in user; the specification
  makes them no-ops otherwise, and so does the guard at their head. Immediately after
  \<^verbatim>\<open>deleteFolder(f)\<close> by a user, no folder of the collection has the id \<open>f\<close>,
  \<^verbatim>\<open>getFolderById(f)\<close> finds nothing, \<^verbatim>\<open>getBookmarksByFolder(f)\<close> is empty for every
  reader, and no bookmark of the store has the folder id \<open>f\<close>. Without a user the
  call leaves the store as it is.
\<close>

theorem deleteFolder_cascade:
  "fid \<notin> set (map folder_id (folders (deleteFolder (Some u) fid st))) \<and>
   getFolderById fid (deleteFolder (Some u) fid st) = None \<and>
   getBookmarksByFolder reader fid (deleteFolder (Some u) fid st) = [] \<and>
   fid \<notin> set (map folderId (bookmarks (deleteFolder (Some u) fid st))) \<and>
   deleteFolder None fid st = st"
proof -
  have "getFolderById fid (deleteFolder (Some u) fid st) = None"
    by (simp add: getFolderById_def deleteFolder_def find_None_iff)
  moreover have "getBookmarksByFolder reader fid (deleteFolder (Some u) fid st) = []"
    by (cases reader) (simp_all add: getBookmarksByFolder_def deleteFolder_def filter_empty_conv)
  ultimately show ?thesis
    by (auto simp: deleteFolder_def)
qed

theorem deleteFolder_cascade_witness:
  "''folder_1'' \<notin> set (map folder_id (folders (deleteFolder (Some bob) ''folder_1'' store1))) \<and>
   getBookmarksByFolder (Some bob) ''folder_1'' (deleteFolder (Some bob) ''folder_1'' store1) = [] \<and>
   ''folder_1'' \<notin> set (map folderId (bookmarks (deleteFolder (Some bob) ''folder_1'' store1))) \<and>
   map folder_id (folders (deleteFolder (Some bob) ''folder_1'' store1)) = [''folder_2''] \<and>
   map folderId (bookmarks (deleteFolder (Some bob) ''folder_1'' store1)) = [''folder_2'']"
proof -
  have "map folder_id (folders (deleteFolder (Some bob) ''folder_1'' store1)) = [''folder_2'']"
    "map folderId (bookmarks (deleteFolder (Some bob) ''folder_1'' store1)) = [''folder_2'']"
    by (simp_all add: deleteFolder_def store1_def)
  with deleteFolder_cascade [of "''folder_1''" bob store1 "Some bob"]
  show ?thesis by (intro conjI) simp_all
qed

text \<open>
  Claim C6. The claim is that every operation of the store reads and writes only the
  folders and bookmarks of the current user. The code does not keep it: the lists
  \<^verbatim>\<open>getUserFolders\<close>, \<^verbatim>\<open>getBookmarksByFolder\<close> and \<^verbatim>\<open>getBookmarkByRecipeId\<close> and the
  lookup of \<^verbatim>\<open>addBookmark\<close> compare the owner with the current user, but
  \<^verbatim>\<open>getFolderById\<close>, \<^verbatim>\<open>updateFolder\<close>, \<^verbatim>\<open>deleteFolder\<close>, \<^verbatim>\<open>updateBookmark\<close> and
  \<^verbatim>\<open>removeBookmark\<close> do not. In \<open>store0\<close> the folder and the bookmark are Bob's.
  Signed in as Alice, \<^verbatim>\<open>getFolderById\<close> returns Bob's folder, \<^verbatim>\<open>deleteFolder\<close> removes
  Bob's folder and his bookmark in it, and \<^verbatim>\<open>updateFolder\<close> renames Bob's folder.
\<close>

theorem cross_user_access:
  "user_id alice = ''alice'' \<and>
   map folder_userId (folders store0) = [''bob''] \<and>
   map bookmark_userId (bookmarks store0) = [''bob''] \<and>
   map_option folder_userId (getFolderById ''folder_1'' store0) = Some ''bob'' \<and>
   folders (deleteFolder (Some alice) ''folder_1'' store0) = [] \<and>
   bookmarks (deleteFolder (Some alice) ''folder_1'' store0) = [] \<and>
   map folder_name (folders (updateFolder (Some alice) ''folder_1''
        \<lparr>patch_name = Some ''Mine'', patch_color = None, patch_icon = None\<rparr> store0)) = [''Mine'']"
  by (simp add: deleteFolder_def updateFolder_def merge_folder_def getFolderById_def store0_def alice_def)

lemma perform_signed_out: "perform None c st = st"
  by (cases c)
    (simp_all add: createFolder_def updateFolder_def deleteFolder_def addBookmark_def
      updateBookmark_def removeBookmark_def)

lemma find_Some_P: "find P xs = Some x \<Longrightarrow> P x \<and> x \<in> set xs"
  by (auto simp: find_Some_iff)

lemma scoped_reads:
  "(\<forall>f \<in> set (getUserFolders usr st). Some (folder_userId f) = map_option user_id usr) \<and>
   (\<forall>b \<in> set (getBookmarksByFolder usr fid st). Some (bookmark_userId b) = map_option user_id usr) \<and>
   (\<forall>b. getBookmarkByRecipeId usr rid st = Some b \<longrightarrow>
        Some (bookmark_userId b) = map_option user_id usr)"
  by (cases usr)
    (auto simp: getUserFolders_def getBookmarksByFolder_def getBookmarkByRecipeId_def
      dest: find_Some_P)

lemma owned_inserts:
  "(\<exists>f. folders (createFolder (Some u) nm col ic now created st) = folders st @ [f] \<and>
        folder_userId f = user_id u) \<and>
   bookmarks (createFolder (Some u) nm col ic now created st) = bookmarks st \<and>
   folders (addBookmark (Some u) rid fid rt now created st) = folders st \<and>
   (getBookmarkByRecipeId (Some u) rid st = None \<longrightarrow>
      (\<exists>b. bookmarks (addBookmark (Some u) rid fid rt now created st) = bookmarks st @ [b] \<and>
           bookmark_userId b = user_id u))"
proof -
  have "folders (addBookmark (Some u) rid fid rt now created st) = folders st"
    by (cases "getBookmarkByRecipeId (Some u) rid st")
      (simp_all add: addBookmark_def find_existing' updateBookmark_def)
  moreover have "getBookmarkByRecipeId (Some u) rid st = None \<longrightarrow>
      (\<exists>b. bookmarks (addBookmark (Some u) rid fid rt now created st) = bookmarks st @ [b] \<and>
           bookmark_userId b = user_id u)"
    by (simp add: addBookmark_def find_existing')
  ultimately show ?thesis
    by (simp add: createFolder_def)
qed

lemma by_id_frame:
  "(\<forall>f \<in> set (folders st). folder_id f \<noteq> fid \<longrightarrow>
       f \<in> set (folders (updateFolder usr fid fd st)) \<and>
       f \<in> set (folders (deleteFolder usr fid st))) \<and>
   (\<forall>b \<in> set (bookmarks st). folderId b \<noteq> fid \<longrightarrow>
       b \<in> set (bookmarks (deleteFolder usr fid st))) \<and>
   (\<forall>b \<in> set (bookmarks st). bookmark_id b \<noteq> bid \<longrightarrow>
       b \<in> set (bookmarks (updateBookmark usr bid bd st)) \<and>
       b \<in> set (bookmarks (removeBookmark usr bid st))) \<and>
   bookmarks (updateFolder usr fid fd st) = bookmarks st \<and>
   folders (updateBookmark usr bid bd st) = folders st \<and>
   folders (removeBookmark usr bid st) = folders st"
  by (cases usr)
    (auto simp: updateFolder_def deleteFolder_def updateBookmark_def removeBookmark_def
      intro: rev_image_eqI)

text \<open>
  What the code does keep of the scoping. The reads \<^verbatim>\<open>getUserFolders\<close>,
  \<^verbatim>\<open>getBookmarksByFolder\<close> and \<^verbatim>\<open>getBookmarkByRecipeId\<close> return only records of the
  current user (and nothing when nobody is signed in). \<^verbatim>\<open>createFolder\<close> appends one
  folder of the current user and leaves the bookmarks alone; \<^verbatim>\<open>addBookmark\<close> leaves the folders alone and, when the
  user has no bookmark for the recipe, appends one bookmark of the current user.
  \<^verbatim>\<open>updateFolder\<close>, \<^verbatim>\<open>deleteFolder\<close>, \<^verbatim>\<open>updateBookmark\<close> and \<^verbatim>\<open>removeBookmark\<close> select
  by id and never compare the owner: each keeps every folder whose id, and every bookmark
  whose id (for the cascade of \<^verbatim>\<open>deleteFolder\<close>: whose folder id), differs from the
  id it is given. With nobody signed in, every mutating operation leaves the store as it
  is.
\<close>

theorem store_scoping:
  "(\<forall>f \<in> set (getUserFolders usr st). Some (folder_userId f) = map_option user_id usr) \<and>
   (\<forall>b \<in> set (getBookmarksByFolder usr fid st). Some (bookmark_userId b) = map_option user_id usr) \<and>
   (\<forall>b. getBookmarkByRecipeId usr rid st = Some b \<longrightarrow>
        Some (bookmark_userId b) = map_option user_id usr) \<and>
   (\<exists>f. folders (createFolder (Some u) nm col ic now created st) = folders st @ [f] \<and>
        folder_userId f = user_id u) \<and>
   bookmarks (createFolder (Some u) nm col ic now created st) = bookmarks st \<and>
   folders (addBookmark (Some u) rid fid rt now created st) = folders st \<and>
   (getBookmarkByRecipeId (Some u) rid st = None \<longrightarrow>
      (\<exists>b. bookmarks (addBookmark (Some u) rid fid rt now created st) = bookmarks st @ [b] \<and>
           bookmark_userId b = user_id u)) \<and>
   (\<forall>f \<in> set (folders st). folder_id f \<noteq> fid \<longrightarrow>
       f \<in> set (folders (updateFolder usr fid fd st)) \<and>
       f \<in> set (folders (deleteFolder usr fid st))) \<and>
   (\<forall>b \<in> set (bookmarks st). folderId b \<noteq> fid \<longrightarrow>
       b \<in> set (bookmarks (deleteFolder usr fid st))) \<and>
   (\<forall>b \<in> set (bookmarks st). bookmark_id b \<noteq> bid \<longrightarrow>
       b \<in> set (bookmarks (updateBookmark usr bid bd st)) \<and>
       b \<in> set (bookmarks (removeBookmark usr bid st))) \<and>
   bookmarks (updateFolder usr fid fd st) = bookmarks st \<and>
   folders (updateBookmark usr bid bd st) = folders st \<and>
   folders (removeBookmark usr bid st) = folders st \<and>
   perform None c st = st"
  using scoped_reads [of usr st fid rid]
    owned_inserts [of u nm col ic now created st rid fid rt]
    by_id_frame [of st fid usr fd bid bd]
    perform_signed_out [of c st]
  by (intro conjI) simp_all

theorem store_scoping_witness:
  "map folder_userId (getUserFolders (Some alice) store1) = [''alice''] \<and>
   map bookmark_userId (getBookmarksByFolder (Some alice) ''folder_2'' store1) = [''alice''] \<and>
   map_option bookmark_userId (getBookmarkByRecipeId (Some alice) 5 store1) = Some ''alice'' \<and>
   map folder_userId (folders (deleteFolder (Some alice) ''folder_2'' store1)) = [''bob''] \<and>
   map bookmark_userId (bookmarks (deleteFolder (Some alice) ''folder_2'' store1)) = [''bob''] \<and>
   map bookmark_userId (bookmarks (removeBookmark (Some alice) ''bookmark_8'' store1)) = [''bob''] \<and>
   map folder_userId
     (folders (createFolder (Some alice) ''Soups'' None None 7 ''2024-01-05T00:00:00.000Z'' store1)) =
     [''bob'', ''alice'', ''alice''] \<and>
   perform None (DeleteFolder ''folder_2'') store1 = store1"
proof -
  have "perform None (DeleteFolder ''folder_2'') store1 = store1"
    using store_scoping [of "Some alice" store1 "''folder_2''" 5 alice "''Soups''" None None 7
        "''2024-01-05T00:00:00.000Z''" 2 "\<lparr>patch_name = None, patch_color = None, patch_icon = None\<rparr>"
        "''bookmark_8''" "\<lparr>patch_folderId = None, patch_rating = None\<rparr>" "DeleteFolder ''folder_2''"]
    by simp
  then show ?thesis
    by (simp add: getUserFolders_def getBookmarksByFolder_def getBookmarkByRecipeId_def
        deleteFolder_def removeBookmark_def createFolder_def store1_def alice_def)
qed

section \<open>Searching\<close>

lemma startsWith_iff: "startsWith s t = (\<exists>v. s = t @ v)"
  by (induction s t rule: startsWith.induct) auto

lemma includes_str_iff: "includes_str s t = (\<exists>u v. s = u @ t @ v)"
proof (induction s)
  case Nil
  then show ?case by simp
next
  case (Cons d s)
  have "(\<exists>u v. d # s = u @ t @ v) = ((\<exists>v. d # s = t @ v) \<or> (\<exists>u v. s = u @ t @ v))"
  proof
    assume "\<exists>u v. d # s = u @ t @ v"
    then obtain u v where uv: "d # s = u @ t @ v" by blast
    show "(\<exists>v. d # s = t @ v) \<or> (\<exists>u v. s = u @ t @ v)"
    proof (cases u)
      case Nil
      with uv show ?thesis by auto
    next
      case (Cons a u')
      with uv have "s = u' @ t @ v" by simp
      then show ?thesis by blast
    qed
  next
    assume "(\<exists>v. d # s = t @ v) \<or> (\<exists>u v. s = u @ t @ v)"
    then show "\<exists>u v. d # s = u @ t @ v"
    proof
      assume "\<exists>v. d # s = t @ v"
      then obtain v where "d # s = [] @ t @ v" by auto
      then show ?thesis by blast
    next
      assume "\<exists>u v. s = u @ t @ v"
      then obtain u v where "d # s = (d # u) @ t @ v" by auto
      then show ?thesis by blast
    qed
  qed
  with Cons show ?case by (simp add: startsWith_iff)
qed

lemma includes_str_Nil [simp]: "includes_str s []"
  by (cases s) simp_all

lemma is_space_lower_char [simp]: "is_space (lower_char c) = is_space c"
  by (auto simp: is_space_def lower_char_def Let_def)

lemma dropWhile_space_toLowerCase:
  "dropWhile is_space (toLowerCase s) = toLowerCase (dropWhile is_space s)"
  by (induction s) (auto simp: toLowerCase_def)

lemma toLowerCase_rev: "toLowerCase (rev s) = rev (toLowerCase s)"
  by (simp add: toLowerCase_def rev_map)

lemma trim_toLowerCase: "trim (toLowerCase q) = toLowerCase (trim q)"
  by (simp add: trim_def dropWhile_space_toLowerCase toLowerCase_rev [symmetric])

lemma trim_all_space: "list_all is_space q \<Longrightarrow> trim q = []"
  by (auto simp: trim_def list_all_iff dest: set_dropWhileD)

lemma toLowerCase_Nil_iff [simp]: "(toLowerCase s = []) = (s = [])"
  by (simp add: toLowerCase_def)

lemma exact_match_literal_hit: "exact_match (toLowerCase q) r = literal_hit q r"
  by (simp add: exact_match_def literal_hit_def ci_contains_def includes_str_iff list_ex_iff)

text \<open>
  Claim C8. For the empty query, and for a query of white space only, the search returns
  the first 20 recipes of the collection, unchanged and in the order of the collection.
\<close>

theorem search_blank_query:
  assumes "list_all is_space query"
  shows "searchRecipesWithFuzzy query recipesToSearch = take 20 recipesToSearch"
proof -
  have "list_all is_space (toLowerCase query)"
    using assms by (simp add: list_all_iff toLowerCase_def)
  then have "trim (toLowerCase query) = []"
    by (rule trim_all_space)
  then show ?thesis
    by (simp add: searchRecipesWithFuzzy_def)
qed

theorem search_blank_query_witness:
  "list_all is_space [CHR 0x20, CHR 0x09] \<and>
   searchRecipesWithFuzzy [CHR 0x20, CHR 0x09] (replicate 25 recipe0) = replicate 20 recipe0 \<and>
   searchRecipesWithFuzzy [] (replicate 25 recipe0) = replicate 20 recipe0"
proof -
  have sp: "list_all is_space [CHR 0x20, CHR 0x09]"
    by (simp add: is_space_def)
  have "take 20 (replicate 25 recipe0) = replicate 20 recipe0"
    by simp
  then show ?thesis
    using sp search_blank_query [OF sp, of "replicate 25 recipe0"]
      search_blank_query [of "[]" "replicate 25 recipe0"]
    by simp
qed

text \<open>
  Claim C3, amended. The search trims the query before it looks for it. When the trimmed
  query is not empty and some recipe holds the trimmed query, in any case of the letters,
  in its name, its description, one of its key words or one of its ingredient parts,
  then the search returns exactly the recipes that do, in the order of the collection;
  so every recipe returned is such a literal hit.
\<close>

theorem search_exact_pass:
  assumes "trim query \<noteq> []"
    and "list_ex (literal_hit (trim query)) recipesToSearch"
  shows "searchRecipesWithFuzzy query recipesToSearch =
           filter (literal_hit (trim query)) recipesToSearch \<and>
         list_all (literal_hit (trim query)) (searchRecipesWithFuzzy query recipesToSearch)"
proof -
  let ?q = "trim (toLowerCase query)"
  have q: "?q = toLowerCase (trim query)" by (rule trim_toLowerCase)
  have ne: "?q \<noteq> []" using assms(1) by (simp add: q)
  have em: "exact_match ?q = literal_hit (trim query)"
    by (simp add: q exact_match_literal_hit fun_eq_iff)
  have "filter (literal_hit (trim query)) recipesToSearch \<noteq> []"
    using assms(2) by (simp add: filter_empty_conv list_ex_iff)
  then have "searchRecipesWithFuzzy query recipesToSearch =
             filter (literal_hit (trim query)) recipesToSearch"
    using ne by (simp add: searchRecipesWithFuzzy_def em Let_def)
  then show ?thesis by (simp add: list_all_iff)
qed

lemma literal_hit_code:
  "literal_hit q r = exact_match (toLowerCase q) r"
  by (simp add: exact_match_literal_hit)

lemma ex_cake1: "exact_match ''cake'' recipe0" by code_simp
lemma ex_cake2: "exact_match ''cake'' recipe_cake" by code_simp
lemma ex_cake3: "exact_match '' cake'' recipe0" by code_simp
lemma ex_cake4: "\<not> exact_match '' cake'' recipe_cake" by code_simp
lemma ex_cake6: "trim '' cake'' = ''cake''" by code_simp
lemma ex_cake9: "trim (toLowerCase '' cake'') = ''cake''" by code_simp
lemma ex_cake5: "searchRecipesWithFuzzy '' cake'' [recipe0, recipe_cake] = [recipe0, recipe_cake]"
  by (simp add: searchRecipesWithFuzzy_def ex_cake9 ex_cake1 ex_cake2)
lemma ex_cake7: "toLowerCase '' cake'' = '' cake''" by code_simp
lemma ex_cake8: "toLowerCase ''cake'' = ''cake''" by code_simp

lemma hit1: "literal_hit '' cake'' recipe0"
  unfolding literal_hit_code ex_cake7 by (rule ex_cake3)

lemma hit2: "\<not> literal_hit '' cake'' recipe_cake"
  unfolding literal_hit_code ex_cake7 by (rule ex_cake4)

lemma hit3: "literal_hit ''cake'' recipe0"
  unfolding literal_hit_code ex_cake8 by (rule ex_cake1)

lemma hit4: "literal_hit ''cake'' recipe_cake"
  unfolding literal_hit_code ex_cake8 by (rule ex_cake2)

text \<open>
  The claim as it is written, with the query itself as the substring, fails for a query
  with white space at an end: the query \<open>'' cake''\<close> occurs in the name
  \<open>''Chocolate Cake''\<close> but not in the name \<open>''Cake''\<close>, and the search returns both
  recipes.
\<close>

theorem search_untrimmed_counterexample:
  "trim '' cake'' \<noteq> [] \<and>
   literal_hit '' cake'' recipe0 \<and>
   \<not> literal_hit '' cake'' recipe_cake \<and>
   searchRecipesWithFuzzy '' cake'' [recipe0, recipe_cake] = [recipe0, recipe_cake]"
proof -
  have "trim '' cake'' \<noteq> []" unfolding ex_cake6 by simp
  with hit1 hit2 ex_cake5 show ?thesis by (intro conjI)
qed

theorem search_exact_pass_witness:
  "trim '' cake'' \<noteq> [] \<and>
   list_ex (literal_hit (trim '' cake'')) [recipe0, recipe_cake] \<and>
   searchRecipesWithFuzzy '' cake'' [recipe0, recipe_cake] =
     filter (literal_hit (trim '' cake'')) [recipe0, recipe_cake] \<and>
   filter (literal_hit (trim '' cake'')) [recipe0, recipe_cake] = [recipe0, recipe_cake]"
proof -
  have a: "trim '' cake'' \<noteq> []" unfolding ex_cake6 by simp
  have b: "list_ex (literal_hit (trim '' cake'')) [recipe0, recipe_cake]"
    unfolding ex_cake6 using hit3 by simp
  have c: "filter (literal_hit (trim '' cake'')) [recipe0, recipe_cake] = [recipe0, recipe_cake]"
    unfolding ex_cake6 using hit3 hit4 by simp
  from search_exact_pass [OF a b]
  have "searchRecipesWithFuzzy '' cake'' [recipe0, recipe_cake] =
     filter (literal_hit (trim '' cake'')) [recipe0, recipe_cake]" by (rule conjunct1)
  with a b c show ?thesis by (intro conjI)
qed

section \<open>The fuzzy match\<close>

lemma words_loop_iff:
  "words_loop src maxd ws =
     (\<exists>w \<in> set ws. 3 \<le> length w \<and>
        (\<exists>v \<in> set (split_ws src). 3 \<le> length v \<and> getLevenshteinDistance v w \<le> maxd))"
  by (induction ws) (auto simp: word_close_def list_ex_iff)

lemma floor_fifth: "nat \<lfloor>of_nat n * default_tolerance\<rfloor> = n div 5"
proof -
  have "(of_nat n :: rat) * default_tolerance = of_nat n / of_nat 5"
    by (simp add: default_tolerance_def)
  then have "\<lfloor>of_nat n * default_tolerance\<rfloor> = \<lfloor>(of_nat n :: rat) / of_nat 5\<rfloor>"
    by (rule arg_cong)
  also have "\<dots> = int (n div 5)"
    by (rule floor_divide_of_nat_eq)
  finally show ?thesis by simp
qed

lemma length_toLowerCase [simp]: "length (toLowerCase s) = length s"
  by (simp add: toLowerCase_def)

text \<open>
  Claim C2, amended. When neither lower-cased string contains the other,
  \<^verbatim>\<open>isFuzzyMatch(source, target, tolerance)\<close> is true exactly when some word \<open>w\<close> of the
  target with at least 3 characters and some word \<open>v\<close> of the source with at least 3
  characters have a distance of at most \<open>max(floor(len(target) * tolerance), 1)\<close>: the
  bound comes from the length of the whole target, not from the length of \<open>w\<close>. For
  the default tolerance 0.2 the bound is \<open>max(len(target) div 5, 1)\<close>.
\<close>

theorem isFuzzyMatch_whole_target:
  assumes "\<not> includes_str (toLowerCase source) (toLowerCase target)"
    and "\<not> includes_str (toLowerCase target) (toLowerCase source)"
  shows "isFuzzyMatch source target tolerance =
           (\<exists>w \<in> set (split_ws (toLowerCase target)). 3 \<le> length w \<and>
              (\<exists>v \<in> set (split_ws (toLowerCase source)). 3 \<le> length v \<and>
                 getLevenshteinDistance v w
                   \<le> max (nat \<lfloor>of_nat (length target) * tolerance\<rfloor>) 1)) \<and>
         isFuzzyMatch source target default_tolerance =
           (\<exists>w \<in> set (split_ws (toLowerCase target)). 3 \<le> length w \<and>
              (\<exists>v \<in> set (split_ws (toLowerCase source)). 3 \<le> length v \<and>
                 getLevenshteinDistance v w \<le> max (length target div 5) 1))"
proof -
  have "source \<noteq> []" "target \<noteq> []"
    using assms by (auto simp: toLowerCase_def)
  then have "isFuzzyMatch source target tol =
      words_loop (toLowerCase source) (max (nat \<lfloor>of_nat (length target) * tol\<rfloor>) 1)
        (split_ws (toLowerCase target))" for tol
    using assms by (simp add: isFuzzyMatch_def maxDistance_def)
  then show ?thesis
    by (simp add: words_loop_iff floor_fifth)
qed

lemma ex_fz1: "\<not> includes_str (toLowerCase ''choclat'') (toLowerCase ''chocolate cake'')"
  by code_simp
lemma ex_fz2: "\<not> includes_str (toLowerCase ''chocolate cake'') (toLowerCase ''choclat'')"
  by code_simp
lemma ex_fz3: "isFuzzyMatch ''choclat'' ''chocolate cake'' default_tolerance"
  by code_simp
lemma ex_fz4: "\<not> spec_fuzzyMatch_per_word ''choclat'' ''chocolate cake'' default_tolerance"
  by code_simp
lemma ex_fz5: "getLevenshteinDistance ''choclat'' ''chocolate'' = 2"
  by code_simp
lemma ex_fz6: "getLevenshteinDistance ''choclat'' ''cake'' = 6"
  by code_simp
lemma ex_fz7: "maxDistance (toLowerCase ''chocolate cake'') default_tolerance = 2"
  by code_simp

text \<open>
  With the bound taken from each word of the target, as the claim is written, the source
  \<open>''choclat''\<close> would not match the target \<open>''chocolate cake''\<close>: its distance to
  \<open>''chocolate''\<close> is 2 and the bound for a word of 9 characters is 1. The code accepts
  it, since the bound for the target of 14 characters is 2.
\<close>

theorem isFuzzyMatch_per_word_counterexample:
  "\<not> includes_str (toLowerCase ''choclat'') (toLowerCase ''chocolate cake'') \<and>
   \<not> includes_str (toLowerCase ''chocolate cake'') (toLowerCase ''choclat'') \<and>
   isFuzzyMatch ''choclat'' ''chocolate cake'' default_tolerance \<and>
   \<not> spec_fuzzyMatch_per_word ''choclat'' ''chocolate cake'' default_tolerance"
  using ex_fz1 ex_fz2 ex_fz3 ex_fz4 by (intro conjI)

theorem isFuzzyMatch_whole_target_witness:
  "\<not> includes_str (toLowerCase ''choclat'') (toLowerCase ''chocolate cake'') \<and>
   \<not> includes_str (toLowerCase ''chocolate cake'') (toLowerCase ''choclat'') \<and>
   isFuzzyMatch ''choclat'' ''chocolate cake'' default_tolerance \<and>
   (\<exists>w \<in> set (split_ws (toLowerCase ''chocolate cake'')). 3 \<le> length w \<and>
      (\<exists>v \<in> set (split_ws (toLowerCase ''choclat'')). 3 \<le> length v \<and>
         getLevenshteinDistance v w \<le> max (length ''chocolate cake'' div 5) 1))"
proof -
  from isFuzzyMatch_whole_target [OF ex_fz1 ex_fz2]
  have "isFuzzyMatch ''choclat'' ''chocolate cake'' default_tolerance =
     (\<exists>w \<in> set (split_ws (toLowerCase ''chocolate cake'')). 3 \<le> length w \<and>
      (\<exists>v \<in> set (split_ws (toLowerCase ''choclat'')). 3 \<le> length v \<and>
         getLevenshteinDistance v w \<le> max (length ''chocolate cake'' div 5) 1))"
    by (rule conjunct2)
  with ex_fz3 have "\<exists>w \<in> set (split_ws (toLowerCase ''chocolate cake'')). 3 \<le> length w \<and>
      (\<exists>v \<in> set (split_ws (toLowerCase ''choclat'')). 3 \<le> length v \<and>
         getLevenshteinDistance v w \<le> max (length ''chocolate cake'' div 5) 1)"
    by (rule rev_iffD1)
  with ex_fz1 ex_fz2 ex_fz3 show ?thesis by (intro conjI)
qed

section \<open>Creating a recipe\<close>

lemma maxId_Max: "rs \<noteq> [] \<Longrightarrow> maxId rs = Max (RecipeId ` set rs)"
  by (cases rs) (simp_all add: maxId_def Max.set_eq_fold [symmetric])

lemma maxId_Nil [simp]: "maxId [] = 0"
  by (simp add: maxId_def)

lemma RecipeId_newRecipe [simp]: "RecipeId (newRecipe d published k) = k"
  by (simp add: newRecipe_def)

lemma to_double_exact: "\<bar>n\<bar> \<le> 2 ^ 53 \<Longrightarrow> to_double n = n"
  by (simp add: to_double_def)

lemma maxId_safe:
  assumes "list_all (\<lambda>r. \<bar>RecipeId r\<bar> < 2 ^ 53) rs"
  shows "\<bar>maxId rs + 1\<bar> \<le> 2 ^ 53"
proof (cases "rs = []")
  case True
  then show ?thesis by simp
next
  case False
  then have "Max (RecipeId ` set rs) \<in> RecipeId ` set rs"
    by (intro Max_in) simp_all
  then obtain r where "r \<in> set rs" "Max (RecipeId ` set rs) = RecipeId r"
    by auto
  with assms have "\<bar>Max (RecipeId ` set rs)\<bar> < 2 ^ 53"
    by (simp add: list_all_iff)
  then show ?thesis
    using False by (simp add: maxId_Max)
qed

text \<open>
  Claim C7, amended. Take a call of \<^verbatim>\<open>addRecipe\<close> whose rendered collection the engine can
  spread and whose ids are whole numbers below \<open>2 ^ 53\<close> in magnitude. The call
  succeeds. The new id is 1 when the rendered collection is empty and its largest id
  plus 1 otherwise, and the new recipe, which carries it, is put in front of the live
  collection. The new id is greater than every id of the rendered collection. It is
  \<open>max(ids, 0) + 1\<close> whenever the rendered collection is empty or holds an id that is
  not negative.
\<close>

theorem addRecipe_newId:
  assumes "length rendered \<le> spread_limit"
    and "list_all (\<lambda>r. \<bar>RecipeId r\<bar> < 2 ^ 53) rendered"
  shows "\<exists>newId.
           addRecipe spread_limit d published rendered live =
             Inr (newId, newRecipe d published newId # live) \<and>
           RecipeId (newRecipe d published newId) = newId \<and>
           newId = (if rendered = [] then 1 else Max (RecipeId ` set rendered) + 1) \<and>
           (\<forall>r \<in> set rendered. RecipeId r < newId) \<and>
           (rendered = [] \<or> (\<exists>r \<in> set rendered. 0 \<le> RecipeId r) \<longrightarrow>
              newId = Max (insert 0 (RecipeId ` set rendered)) + 1)"
proof -
  let ?new = "maxId rendered + 1"
  have exact: "to_double ?new = ?new"
    using maxId_safe [OF assms(2)] by (rule to_double_exact)
  have res: "addRecipe spread_limit d published rendered live =
               Inr (?new, newRecipe d published ?new # live)"
    using assms(1) by (simp add: addRecipe_def exact Let_def)
  have val: "?new = (if rendered = [] then 1 else Max (RecipeId ` set rendered) + 1)"
    by (simp add: maxId_Max)
  have lt: "\<forall>r \<in> set rendered. RecipeId r < ?new"
  proof
    fix r assume r: "r \<in> set rendered"
    then have "rendered \<noteq> []" by auto
    moreover have "RecipeId r \<le> Max (RecipeId ` set rendered)" using r by simp
    ultimately show "RecipeId r < ?new" by (simp add: maxId_Max)
  qed
  have zero: "rendered = [] \<or> (\<exists>r \<in> set rendered. 0 \<le> RecipeId r) \<longrightarrow>
        ?new = Max (insert 0 (RecipeId ` set rendered)) + 1"
  proof (cases "rendered = []")
    case True
    then show ?thesis by simp
  next
    case False
    show ?thesis
    proof
      assume "rendered = [] \<or> (\<exists>r \<in> set rendered. 0 \<le> RecipeId r)"
      with False obtain r where r: "r \<in> set rendered" "0 \<le> RecipeId r" by blast
      then have "RecipeId r \<le> Max (RecipeId ` set rendered)" by simp
      with r have "0 \<le> Max (RecipeId ` set rendered)" by linarith
      then have "Max (insert 0 (RecipeId ` set rendered)) = Max (RecipeId ` set rendered)"
        using False by (simp add: max_def)
      then show "?new = Max (insert 0 (RecipeId ` set rendered)) + 1"
        using False by (simp add: maxId_Max)
    qed
  qed
  from res val lt zero show ?thesis
    by (intro exI [of _ ?new] conjI) simp_all
qed

text \<open>
  The claim as it is written fails on a collection whose ids are all negative: after
  the single id -5 comes -4, not \<open>max(-5, 0) + 1 = 1\<close>.
\<close>

theorem addRecipe_negative_ids_counterexample:
  "addRecipe 65535 input0 ''2024-01-05T00:00:00.000Z''
     [recipe0\<lparr>RecipeId := - 5\<rparr>] [recipe0\<lparr>RecipeId := - 5\<rparr>] =
     Inr (- 4, newRecipe input0 ''2024-01-05T00:00:00.000Z'' (- 4) # [recipe0\<lparr>RecipeId := - 5\<rparr>]) \<and>
   Max (insert 0 (RecipeId ` set [recipe0\<lparr>RecipeId := - 5\<rparr>])) + 1 = 1"
  by (simp add: addRecipe_def maxId_def to_double_def)

theorem addRecipe_newId_witness:
  "length [recipe0, recipe_cake] \<le> 65535 \<and>
   list_all (\<lambda>r. \<bar>RecipeId r\<bar> < 2 ^ 53) [recipe0, recipe_cake] \<and>
   addRecipe 65535 input0 ''2024-01-05T00:00:00.000Z'' [recipe0, recipe_cake] [recipe0, recipe_cake] =
     Inr (3, newRecipe input0 ''2024-01-05T00:00:00.000Z'' 3 # [recipe0, recipe_cake]) \<and>
   RecipeId recipe0 < 3 \<and> RecipeId recipe_cake < 3 \<and>
   3 = Max (insert 0 (RecipeId ` set [recipe0, recipe_cake])) + 1"
proof -
  have len: "length [recipe0, recipe_cake] \<le> 65535" by simp
  have safe: "list_all (\<lambda>r. \<bar>RecipeId r\<bar> < 2 ^ 53) [recipe0, recipe_cake]"
    by (simp add: recipe0_def recipe_cake_def)
  have ids: "RecipeId recipe0 = 1" "RecipeId recipe_cake = 2"
    by (simp_all add: recipe0_def recipe_cake_def)
  from addRecipe_newId [OF len safe, of input0 "''2024-01-05T00:00:00.000Z''" "[recipe0, recipe_cake]"]
  obtain k where k:
    "addRecipe 65535 input0 ''2024-01-05T00:00:00.000Z'' [recipe0, recipe_cake] [recipe0, recipe_cake] =
       Inr (k, newRecipe input0 ''2024-01-05T00:00:00.000Z'' k # [recipe0, recipe_cake])"
    "k = (if [recipe0, recipe_cake] = [] then 1 else Max (RecipeId ` set [recipe0, recipe_cake]) + 1)"
    by auto
  from k(2) have "k = 3" by (simp add: ids)
  with k(1) len safe show ?thesis by (simp add: ids)
qed

text \<open>
  Outside these conditions the code gives no such id. At the id \<open>2 ^ 53\<close> the sum is
  rounded back to \<open>2 ^ 53\<close>, so the new id is the old one. A second call made from the
  render of the first takes the same largest id and gives the same new id, which is then
  twice in the live collection. A rendered collection with more recipes than the engine
  spreads makes the call fail and changes nothing.
\<close>

lemma floorlog_2_53_1: "floorlog 2 9007199254740993 = 54"
  by (simp add: compute_floorlog)

lemma addRecipe_at_2_53:
  "addRecipe 65535 input0 ''2024-01-05T00:00:00.000Z''
     [recipe0\<lparr>RecipeId := 9007199254740992\<rparr>] [recipe0\<lparr>RecipeId := 9007199254740992\<rparr>] =
     Inr (9007199254740992,
          newRecipe input0 ''2024-01-05T00:00:00.000Z'' 9007199254740992
            # [recipe0\<lparr>RecipeId := 9007199254740992\<rparr>])"
  by (simp add: addRecipe_def maxId_def to_double_def floorlog_2_53_1)

lemma addRecipe_same_render:
  assumes "addRecipe spread_limit d published rendered live = Inr (k, live')"
  shows "\<exists>live''. addRecipe spread_limit d' published' rendered live' = Inr (k, live'') \<and>
           map RecipeId (take 2 live'') = [k, k]"
  using assms by (auto simp: addRecipe_def Let_def split: if_splits)

lemma addRecipe_RangeError:
  "spread_limit < length rendered \<Longrightarrow>
   addRecipe spread_limit d published rendered live = Inl RangeError"
  by (simp add: addRecipe_def)

section \<open>Reviews and aggregates\<close>

lemma foldl_rating: "foldl (\<lambda>sum v. sum + Rating v) a vs = a + sum_list (map Rating vs)"
  by (induction vs arbitrary: a) simp_all

lemma RecipeId_recompute [simp]: "RecipeId (recompute vs r) = RecipeId r"
  by (simp add: recompute_def Let_def)

lemma recompute_consistent:
  "ReviewCount (recompute vs r) = int (length (reviews_for (RecipeId r) vs)) \<and>
   (0 < length (reviews_for (RecipeId r) vs) \<longrightarrow>
      AggregatedRating (recompute vs r) = mean_rating (reviews_for (RecipeId r) vs)) \<and>
   (reviews_for (RecipeId r) vs = [] \<longrightarrow> AggregatedRating (recompute vs r) = AggregatedRating r)"
  by (simp add: recompute_def Let_def reviews_for_def mean_rating_def foldl_rating)

lemma loadData_consistent:
  assumes "reviewsData \<noteq> []"
  shows "aggregates_consistent (loadData processed reviewsData)"
  using assms recompute_consistent [where vs = reviewsData]
  by (simp add: aggregates_consistent_def loadData_def list_all_iff)

lemma reviews_addReview:
  "reviews_for k (reviews (addReview d now submitted modified rendered st)) =
     (if k = review_RecipeId d
      then \<lparr> review_RecipeId = review_RecipeId d, review_AuthorId = review_AuthorId d,
             review_AuthorName = review_AuthorName d, Rating = Rating d, Review = Review d,
             ReviewId = now, DateSubmitted = Some submitted, DateModified = modified \<rparr>
           # reviews_for k (reviews st)
      else reviews_for k (reviews st))"
  by (simp add: addReview_def Let_def reviews_for_def)

lemma recipes_addReview:
  "recipes (addReview d now submitted modified rendered st) =
     map (\<lambda>r. if RecipeId r = review_RecipeId d
              then r\<lparr>AggregatedRating :=
                       (sum_list (map Rating (reviews_for (review_RecipeId d) rendered)) + Rating d)
                         / real (length (reviews_for (review_RecipeId d) rendered) + 1),
                     ReviewCount := ReviewCount r + 1\<rparr>
              else r) (recipes st)"
  by (simp add: addReview_def Let_def reviews_for_def foldl_rating)

text \<open>A call through the context value of a render that shows the live reviews keeps the
  invariant.\<close>

lemma addReview_consistent:
  assumes "aggregates_consistent st"
  shows "aggregates_consistent (addReview d now submitted modified (reviews st) st)"
  using assms
  unfolding aggregates_consistent_def list_all_iff
  by (auto simp: recipes_addReview reviews_addReview mean_rating_def add.commute)

lemma loaded0_consistent: "aggregates_consistent loaded0"
  unfolding loaded0_def by (rule loadData_consistent) simp

lemma loaded0_twice_values:
  "map (\<lambda>r. (RecipeId r, ReviewCount r, AggregatedRating r)) (recipes loaded0_twice) =
     [(1, 2, 2), (2, 1, 5), (3, 0, 9 / 2)]"
  by (simp add: loaded0_twice_def loaded0_def loadData_def processed0_def review0_def
      reviewData1_def recipe0_def recipe_cake_def addReview_def recompute_def Let_def)

lemma loaded0_twice_reviews:
  "map Rating (reviews_for 1 (reviews loaded0_twice)) = [2, 4]"
  by (simp add: loaded0_twice_def loaded0_def loadData_def review0_def reviewData1_def
      addReview_def reviews_for_def Let_def)

text \<open>
  Claim C4. The claim is that after the recalculation of \<^verbatim>\<open>loadData\<close> and any sequence of
  \<^verbatim>\<open>addReview\<close> calls every recipe's \<^verbatim>\<open>ReviewCount\<close> is the number of its stored reviews
  and its \<^verbatim>\<open>AggregatedRating\<close> their mean. The code keeps the count but not the mean when
  two reviews of one recipe are added through one context value. After \<^verbatim>\<open>loadData\<close>
  recipe 1 has no review. \<^verbatim>\<open>addReview\<close> with rating 4 and then \<^verbatim>\<open>addReview\<close> with rating
  2, both through the context value of that state, store both reviews and count 2, and
  both compute the rating from the rendered reviews, in which recipe 1 has none: the
  rating of recipe 1 is 2, the mean of its stored reviews is 3.
\<close>

theorem addReview_same_render:
  "map ReviewCount (recipes loaded0_twice) = [2, 1, 0] \<and>
   map AggregatedRating (recipes loaded0_twice) = [2, 5, 9 / 2] \<and>
   map RecipeId (recipes loaded0_twice) = [1, 2, 3] \<and>
   map Rating (reviews_for 1 (reviews loaded0_twice)) = [2, 4] \<and>
   mean_rating (reviews_for 1 (reviews loaded0_twice)) = 3"
proof -
  have ids: "map RecipeId (recipes loaded0_twice) = [1, 2, 3]"
    using arg_cong [OF loaded0_twice_values, of "map fst"] by (simp add: comp_def)
  have counts: "map ReviewCount (recipes loaded0_twice) = [2, 1, 0]"
    using arg_cong [OF loaded0_twice_values, of "map (\<lambda>(i, c, a). c)"] by (simp add: comp_def)
  have ratings: "map AggregatedRating (recipes loaded0_twice) = [2, 5, 9 / 2]"
    using arg_cong [OF loaded0_twice_values, of "map (\<lambda>(i, c, a). a)"] by (simp add: comp_def)
  have mean: "mean_rating (reviews_for 1 (reviews loaded0_twice)) = 3"
    using arg_cong [OF loaded0_twice_reviews, of sum_list] arg_cong [OF loaded0_twice_reviews, of length]
    by (simp add: mean_rating_def)
  from counts ratings ids loaded0_twice_reviews mean show ?thesis by (intro conjI)
qed

end
